theory Spec2Isabelle
  imports Complex_Main "HOL-Library.Word"
begin

section \<open>Conventions of the embedding\<close>

text \<open>
  The Go types \<open>Meters\<close>, \<open>MetersPerSec\<close>, \<open>MetersPerSec2\<close> and \<open>Radians\<close> are
  \<open>float64\<close>. They are embedded as \<^typ>\<open>real\<close>: every arithmetic operation is exact,
  so rounding, overflow to infinity, signed zeros and NaN are outside the model.
  A float64 division by zero does not panic in Go, it yields an infinity or NaN, which
  the reals do not have. Where a denominator is not guarded by the code and can be zero
  for a road piece made by \<open>NewRoadPiece\<close> (the curve radius ratio of the simulator),
  the division is written out, instead of HOL's \<open>x / 0 = 0\<close>: its result is a
  value of the type \<open>fval\<close> below, and what the code does with an infinity and with
  NaN is written out where the value is used. The other denominators are the centre
  length of a road piece and its curve radius at the road centre, both positive for the
  pieces that \<open>NewRoadPiece\<close> accepts.
  \<open>SimTime\<close> is \<open>uint64\<close> and is embedded as a 64-bit word.
  Slice indices and road piece indices (\<open>Rpi\<close>, a Go \<open>int\<close>) are \<^typ>\<open>int\<close>; a
  slice read whose index is not bounded by the loop around it is checked, and a read
  out of range is the run-time panic of Go.
  A call of \<open>panic\<close> and a failed index check are values of type \<open>failure\<close>.
  The last value of that type, \<open>DofsNotANumber\<close>, is not a panic: it marks a tick
  that stores NaN as the distance offset of a vehicle and goes on. No vehicle of the
  model has such a distance offset, so the model ends there.
\<close>

type_synonym Meters = real
type_synonym MetersPerSec = real
type_synonym MetersPerSec2 = real
type_synonym Radians = real
type_synonym SimTime = "64 word"
type_synonym Rpi = int

datatype failure =
    IndexOutOfRange
  | InvalidDofs
  | InvalidRpi
  | InvalidDAngle
  | InvalidVehType
  | InvalidRoadPiece
  | InvalidRegion
  | DofsNotANumber

text \<open>
  A float64 value that may have left the reals: a finite value, an infinity of either
  sign, or NaN.
\<close>

datatype fval = FinVal real | InfVal | NaNVal

text \<open>Sequencing of computations that may panic.\<close>

definition bindF :: "failure + 'a \<Rightarrow> ('a \<Rightarrow> failure + 'b) \<Rightarrow> failure + 'b" where
  "bindF m f = (case m of Inl e \<Rightarrow> Inl e | Inr x \<Rightarrow> f x)"

text \<open>A checked slice read \<open>xs[i]\<close>.\<close>

definition sliceAt :: "'a list \<Rightarrow> int \<Rightarrow> failure + 'a" where
  "sliceAt xs i = (if 0 \<le> i \<and> i < int (length xs) then Inr (xs ! nat i) else Inl IndexOutOfRange)"

section \<open>Package phys: units and Cartesian coordinates\<close>

definition isNear :: "real \<Rightarrow> real \<Rightarrow> real \<Rightarrow> bool" where
  "isNear v1 v2 tolerance \<longleftrightarrow> \<bar>v1 - v2\<bar> \<le> \<bar>tolerance\<bar>"

definition MetersAreNear :: "Meters \<Rightarrow> Meters \<Rightarrow> Meters \<Rightarrow> bool" where
  "MetersAreNear m1 m2 tolerance = isNear m1 m2 tolerance"

definition RadiansAreNear :: "Radians \<Rightarrow> Radians \<Rightarrow> Radians \<Rightarrow> bool" where
  "RadiansAreNear a1 a2 tolerance = isNear a1 a2 tolerance"

definition Radians90DegreeTurnR :: Radians where
  "Radians90DegreeTurnR = - (pi / 2)"

definition Radians90DegreeTurnL :: Radians where
  "Radians90DegreeTurnL = pi / 2"

text \<open>
  \<open>NormalizeRadians\<close> is two loops: the first adds \<open>2 pi\<close> while the angle is below
  \<open>-pi\<close>, the second subtracts \<open>2 pi\<close> while it is above \<open>pi\<close>.
\<close>

function NormalizeRadians_up :: "Radians \<Rightarrow> Radians" where
  "NormalizeRadians_up a = (if a < - pi then NormalizeRadians_up (a + 2 * pi) else a)"
  by pat_completeness auto
termination
proof (relation "measure (\<lambda>a. nat \<lceil>(- pi - a) / (2 * pi)\<rceil>)")
  show "wf (measure (\<lambda>a. nat \<lceil>(- pi - a) / (2 * pi)\<rceil>))" by simp
next
  fix a :: real
  assume lt: "a < - pi"
  have eq: "(- pi - (a + 2 * pi)) / (2 * pi) = (- pi - a) / (2 * pi) - 1"
    by (simp add: field_simps)
  have pos: "0 < (- pi - a) / (2 * pi)" using lt by simp
  then have "1 \<le> \<lceil>(- pi - a) / (2 * pi)\<rceil>" by linarith
  then show "(a + 2 * pi, a) \<in> measure (\<lambda>a. nat \<lceil>(- pi - a) / (2 * pi)\<rceil>)"
    unfolding in_measure eq by simp
qed

function NormalizeRadians_down :: "Radians \<Rightarrow> Radians" where
  "NormalizeRadians_down a = (if a > pi then NormalizeRadians_down (a - 2 * pi) else a)"
  by pat_completeness auto
termination
proof (relation "measure (\<lambda>a. nat \<lceil>(a - pi) / (2 * pi)\<rceil>)")
  show "wf (measure (\<lambda>a. nat \<lceil>(a - pi) / (2 * pi)\<rceil>))" by simp
next
  fix a :: real
  assume gt: "pi < a"
  have eq: "(a - 2 * pi - pi) / (2 * pi) = (a - pi) / (2 * pi) - 1"
    by (simp add: field_simps)
  have pos: "0 < (a - pi) / (2 * pi)" using gt by simp
  then have "1 \<le> \<lceil>(a - pi) / (2 * pi)\<rceil>" by linarith
  then show "(a - 2 * pi, a) \<in> measure (\<lambda>a. nat \<lceil>(a - pi) / (2 * pi)\<rceil>)"
    unfolding in_measure eq by simp
qed

declare NormalizeRadians_up.simps [simp del]
declare NormalizeRadians_down.simps [simp del]

definition NormalizeRadians :: "Radians \<Rightarrow> Radians" where
  "NormalizeRadians a = NormalizeRadians_down (NormalizeRadians_up a)"

record Point =
  X :: Meters
  Y :: Meters

text \<open>\<open>Pose\<close> embeds \<open>Point\<close>: it is the record \<open>Point\<close> extended by \<open>Theta\<close>.\<close>

record Pose = Point +
  Theta :: Radians

record PolarPoint =
  R :: Meters
  A :: Radians

text \<open>
  \<open>math.Atan2\<close> of the Go library on finite arguments: the special cases for a zero
  argument, then \<open>Atan (y / x)\<close> moved to the quadrant of the point.
\<close>

definition Atan2 :: "real \<Rightarrow> real \<Rightarrow> real" where
  "Atan2 y x =
     (if y = 0 then (if x \<ge> 0 then 0 else pi)
      else if x = 0 then (if y > 0 then pi / 2 else - (pi / 2))
      else (let q = arctan (y / x)
            in if x < 0 then (if q \<le> 0 then q + pi else q - pi) else q))"

definition Dist :: "Point \<Rightarrow> Point \<Rightarrow> Meters" where
  "Dist p1 p2 =
     (let dx = X p1 - X p2; dy = Y p1 - Y p2 in sqrt (dx * dx + dy * dy))"

definition ToPolarPoint :: "Point \<Rightarrow> PolarPoint" where
  "ToPolarPoint p =
     (let r = sqrt (X p * X p + Y p * Y p);
          a = Atan2 (Y p) (X p);
          a = NormalizeRadians a
      in \<lparr>R = r, A = a\<rparr>)"

definition ToPoint :: "PolarPoint \<Rightarrow> Point" where
  "ToPoint pp =
     (let pp = pp\<lparr>A := NormalizeRadians (A pp)\<rparr>
      in \<lparr>X = R pp * cos (A pp), Y = R pp * sin (A pp)\<rparr>)"

definition AdvancePose :: "Pose \<Rightarrow> Pose \<Rightarrow> Pose" where
  "AdvancePose p1 p2 =
     (let pp = ToPolarPoint \<lparr>X = X p2, Y = Y p2\<rparr>;
          pp = pp\<lparr>A := NormalizeRadians (Theta p1 + A pp)\<rparr>;
          p = ToPoint pp;
          p = p\<lparr>X := X p + X p1\<rparr>;
          p = p\<lparr>Y := Y p + Y p1\<rparr>;
          pose = \<lparr>X = X p, Y = Y p, Theta = Theta p1 + Theta p2\<rparr>;
          pose = pose\<lparr>Theta := NormalizeRadians (Theta pose)\<rparr>
      in pose)"

definition RelativeTo :: "Pose \<Rightarrow> Pose \<Rightarrow> Pose" where
  "RelativeTo p1 p2 =
     (let xlatePoint = \<lparr>X = X p1 - X p2, Y = Y p1 - Y p2\<rparr>;
          pp = ToPolarPoint xlatePoint;
          pp = pp\<lparr>A := NormalizeRadians (A pp - Theta p2)\<rparr>;
          p = ToPoint pp;
          pose = \<lparr>X = X p, Y = Y p, Theta = Theta p1 - Theta p2\<rparr>;
          pose = pose\<lparr>Theta := NormalizeRadians (Theta pose)\<rparr>
      in pose)"

section \<open>Package track: road pieces\<close>

record RoadPiece =
  cenLen :: Meters
  dAngle :: Radians

definition NewRoadPiece :: "Meters \<Rightarrow> Radians \<Rightarrow> failure + RoadPiece" where
  "NewRoadPiece cl da =
     (if cl \<le> 0 then Inl InvalidRoadPiece
      else if da > Radians90DegreeTurnL \<or> da < Radians90DegreeTurnR then Inl InvalidRoadPiece
      else Inr \<lparr>cenLen = cl, dAngle = da\<rparr>)"

definition RoadPiece_CenLen :: "RoadPiece \<Rightarrow> Meters" where
  "RoadPiece_CenLen rp = cenLen rp"

definition RoadPiece_DAngle :: "RoadPiece \<Rightarrow> Radians" where
  "RoadPiece_DAngle rp = dAngle rp"

definition IsStraight :: "RoadPiece \<Rightarrow> bool" where
  "IsStraight rp \<longleftrightarrow> dAngle rp = 0"

definition RoadPiece_Len :: "RoadPiece \<Rightarrow> Meters \<Rightarrow> Meters" where
  "RoadPiece_Len rp cofs = cenLen rp - cofs * dAngle rp"

definition CurveRadius :: "RoadPiece \<Rightarrow> Meters \<Rightarrow> Meters" where
  "CurveRadius rp cofs =
     (if IsStraight rp then 0
      else (let r = cenLen rp / \<bar>dAngle rp\<bar>
            in if dAngle rp < 0 then r + cofs else r - cofs))"

definition DeltaPose :: "RoadPiece \<Rightarrow> Pose" where
  "DeltaPose rp =
     (if IsStraight rp then \<lparr>X = cenLen rp, Y = 0, Theta = 0\<rparr>
      else (let rc = CurveRadius rp 0;
                angle = cenLen rp / rc
            in if dAngle rp > 0
               then (let pp = \<lparr>R = rc, A = - (pi / 2) + angle\<rparr>;
                         p = ToPoint pp;
                         p = p\<lparr>Y := Y p + rc\<rparr>
                     in \<lparr>X = X p, Y = Y p, Theta = dAngle rp\<rparr>)
               else (let pp = \<lparr>R = rc, A = pi / 2 - angle\<rparr>;
                         p = ToPoint pp;
                         p = p\<lparr>Y := Y p - rc\<rparr>
                     in \<lparr>X = X p, Y = Y p, Theta = dAngle rp\<rparr>)))"

section \<open>Package track: track coordinates and the track\<close>

definition TrackMetersAreEqualTol :: Meters where
  "TrackMetersAreEqualTol = 1 / 1000000"

definition TrackRadiansAreEqualTol :: Radians where
  "TrackRadiansAreEqualTol = 1 / 1000"

text \<open>\<open>track.Point\<close>, \<open>track.Pose\<close> (which embeds the point) and \<open>track.Vel\<close>.\<close>

record TrackPoint =
  Dofs :: Meters
  Cofs :: Meters

record TrackPose = TrackPoint +
  DAngle :: Radians

record Vel =
  D :: MetersPerSec
  C :: MetersPerSec

record Track =
  width :: Meters
  maxCofs :: Meters
  pieces :: "RoadPiece list"
  entryPoses :: "Pose list"
  entryDofs :: "Meters list"
  minCorner :: Point
  maxCorner :: Point

text \<open>The error values that the constructors of tracks return with \<open>fmt.Errorf\<close>.\<close>

datatype err =
    TrackTooSmall nat
  | InvalidWidth Meters
  | InvalidMaxCofs Meters
  | NotALoop Pose Pose
  | TopoMustStartWithS
  | UnsupportedTopoChar

text \<open>
  The first loop of \<open>NewTrack\<close> fills \<open>entryDofs\<close> and \<open>entryPoses\<close> from their
  entries at index 0: entry \<open>i + 1\<close> is entry \<open>i\<close> advanced by piece \<open>i\<close>.
\<close>

fun entryDofsFrom :: "Meters \<Rightarrow> RoadPiece list \<Rightarrow> Meters list" where
  "entryDofsFrom d [] = [d]"
| "entryDofsFrom d (rp # rps) = d # entryDofsFrom (d + RoadPiece_Len rp 0) rps"

fun entryPosesFrom :: "Pose \<Rightarrow> RoadPiece list \<Rightarrow> Pose list" where
  "entryPosesFrom e [] = [e]"
| "entryPosesFrom e (rp # rps) = e # entryPosesFrom (AdvancePose e (DeltaPose rp)) rps"

text \<open>
  The second loop visits, for every piece \<open>i\<close> and \<open>j = 0, 1\<close>, the track edge at the
  entry of the piece and widens the corners of the world, which start at the zero point.
\<close>

definition cornerStep :: "Point \<times> Point \<Rightarrow> Point \<Rightarrow> Point \<times> Point" where
  "cornerStep c edge =
     (let mn = fst c; mx = snd c;
          mn = (if X edge < X mn then mn\<lparr>X := X edge\<rparr> else mn);
          mn = (if Y edge < Y mn then mn\<lparr>Y := Y edge\<rparr> else mn);
          mx = (if X edge > X mx then mx\<lparr>X := X edge\<rparr> else mx);
          mx = (if Y edge > Y mx then mx\<lparr>Y := Y edge\<rparr> else mx)
      in (mn, mx))"

definition trackEdges :: "Meters \<Rightarrow> Pose list \<Rightarrow> Point list" where
  "trackEdges w poses =
     concat (map (\<lambda>e. map (\<lambda>j. Point.truncate
                 (AdvancePose e \<lparr>X = 0, Y = - w / 2 + real j * w, Theta = 0\<rparr>)) [0 ..< 2])
               poses)"

definition NewTrack :: "Meters \<Rightarrow> Meters \<Rightarrow> RoadPiece list \<Rightarrow> Track option \<times> err option" where
  "NewTrack w mc ps =
     (let numRp = length ps
      in if numRp < 4 then (None, Some (TrackTooSmall numRp))
         else if w \<le> 0 then (None, Some (InvalidWidth w))
         else (let mc = (if mc = 0 then w / 2 else mc)
               in if mc < 0 then (None, Some (InvalidMaxCofs mc))
                  else (let eposes = entryPosesFrom \<lparr>X = 0, Y = 0, Theta = 0\<rparr> ps;
                            edofs = entryDofsFrom 0 ps;
                            corners = foldl cornerStep (\<lparr>X = 0, Y = 0\<rparr>, \<lparr>X = 0, Y = 0\<rparr>)
                                        (trackEdges w (take numRp eposes));
                            t = \<lparr>width = w, maxCofs = mc, pieces = ps, entryPoses = eposes,
                                 entryDofs = edofs, minCorner = fst corners,
                                 maxCorner = snd corners\<rparr>;
                            beg = eposes ! 0; fin = eposes ! numRp
                        in if RadiansAreNear (Theta beg) (Theta fin) TrackRadiansAreEqualTol
                              \<and> MetersAreNear (X beg) (X fin) TrackMetersAreEqualTol
                              \<and> MetersAreNear (Y beg) (Y fin) TrackMetersAreEqualTol
                           then (Some t, None)
                           else (Some t, Some (NotALoop beg fin)))))"

definition Track_Width :: "Track \<Rightarrow> Meters" where
  "Track_Width t = width t"

definition MaxCofs :: "Track \<Rightarrow> Meters" where
  "MaxCofs t = maxCofs t"

definition NumRp :: "Track \<Rightarrow> int" where
  "NumRp t = int (length (pieces t))"

definition Track_CenLen :: "Track \<Rightarrow> failure + Meters" where
  "Track_CenLen t = sliceAt (entryDofs t) (int (length (pieces t)))"

definition Track_Len :: "Track \<Rightarrow> Meters \<Rightarrow> Meters" where
  "Track_Len t cofs = foldl (\<lambda>l rp. l + RoadPiece_Len rp cofs) 0 (pieces t)"

definition assertValidDofs :: "Track \<Rightarrow> Meters \<Rightarrow> failure + unit" where
  "assertValidDofs t dofs =
     (if dofs < 0 then Inl InvalidDofs
      else bindF (Track_CenLen t) (\<lambda>l. if dofs > l then Inl InvalidDofs else Inr ()))"

definition assertValidRpi :: "Track \<Rightarrow> Rpi \<Rightarrow> failure + unit" where
  "assertValidRpi t i = (if i \<ge> int (length (pieces t)) then Inl InvalidRpi else Inr ())"

definition Rp :: "Track \<Rightarrow> Rpi \<Rightarrow> failure + RoadPiece" where
  "Rp t i = bindF (assertValidRpi t i) (\<lambda>_. sliceAt (pieces t) i)"

definition RpEntryDofs :: "Track \<Rightarrow> Rpi \<Rightarrow> failure + Meters" where
  "RpEntryDofs t i = bindF (assertValidRpi t i) (\<lambda>_. sliceAt (entryDofs t) i)"

definition RpEntryPose :: "Track \<Rightarrow> Rpi \<Rightarrow> failure + Pose" where
  "RpEntryPose t i =
     (let i = (if i = int (length (pieces t)) then 0 else i)
      in bindF (assertValidRpi t i) (\<lambda>_. sliceAt (entryPoses t) i))"

text \<open>
  The search loop of \<open>RpiAndRpDofs\<close>: from the last piece downwards while the entry of
  the piece lies beyond \<open>dofs\<close>.
\<close>

function rpiSearch :: "Track \<Rightarrow> Meters \<Rightarrow> int \<Rightarrow> failure + int" where
  "rpiSearch t dofs rpi =
     (if rpi > 0
      then (case sliceAt (entryDofs t) rpi of
              Inl e \<Rightarrow> Inl e
            | Inr d \<Rightarrow> if d > dofs then rpiSearch t dofs (rpi - 1) else Inr rpi)
      else Inr rpi)"
  by pat_completeness auto
termination
  by (relation "measure (\<lambda>(t, dofs, rpi). nat rpi)") auto

declare rpiSearch.simps [simp del]

definition RpiAndRpDofs :: "Track \<Rightarrow> Meters \<Rightarrow> failure + (Rpi \<times> Meters)" where
  "RpiAndRpDofs t dofs =
     bindF (assertValidDofs t dofs) (\<lambda>_.
     bindF (rpiSearch t dofs (int (length (pieces t)) - 1)) (\<lambda>rpi.
     bindF (sliceAt (entryDofs t) rpi) (\<lambda>d.
     bindF (sliceAt (pieces t) rpi) (\<lambda>rp.
       (let rpDofs = dofs - d;
            rpDofs = (if rpDofs > RoadPiece_CenLen rp then RoadPiece_CenLen rp else rpDofs)
        in Inr (rpi, rpDofs))))))"

text \<open>
  \<open>NormalizeDofs\<close> is two loops that step by the track length. Neither has a bound:
  with a track length that is not positive they do not end, and that is the value
  \<open>None\<close>. The track length is read once here; in the code it is read by every test
  of a loop condition, and the second loop tests its condition at least once.
\<close>

partial_function (option) NormalizeDofs_up :: "Meters \<Rightarrow> Meters \<Rightarrow> Meters option" where
  "NormalizeDofs_up l dofs = (if dofs < 0 then NormalizeDofs_up l (dofs + l) else Some dofs)"

partial_function (option) NormalizeDofs_down :: "Meters \<Rightarrow> Meters \<Rightarrow> Meters option" where
  "NormalizeDofs_down l dofs = (if dofs \<ge> l then NormalizeDofs_down l (dofs - l) else Some dofs)"

definition NormalizeDofs :: "Track \<Rightarrow> Meters \<Rightarrow> (failure + Meters) option" where
  "NormalizeDofs t dofs =
     (case Track_CenLen t of
        Inl e \<Rightarrow> Some (Inl e)
      | Inr l \<Rightarrow> (case NormalizeDofs_up l dofs of
                    None \<Rightarrow> None
                  | Some d1 \<Rightarrow> (case NormalizeDofs_down l d1 of
                                  None \<Rightarrow> None
                                | Some d2 \<Rightarrow> Some (Inr d2))))"

definition DofsDist :: "Track \<Rightarrow> Meters \<Rightarrow> Meters \<Rightarrow> failure + Meters" where
  "DofsDist t dofs1 dofs2 =
     (let dist = \<bar>dofs1 - dofs2\<bar>
      in bindF (Track_CenLen t) (\<lambda>l. Inr (if dist > l / 2 then l - dist else dist)))"

definition isFacingTrackwise :: "Track \<Rightarrow> Radians \<Rightarrow> failure + bool" where
  "isFacingTrackwise t dangle =
     (if dangle > pi \<or> dangle < - pi then Inl InvalidDAngle
      else Inr (\<bar>dangle\<bar> \<le> pi / 2))"

text \<open>
  The summing loop of \<open>DriveDist\<close> over the \<open>rpCount\<close> pieces from \<open>rpi1\<close> on,
  wrapping at the end of the track.
\<close>

function driveDistLoop ::
  "Track \<Rightarrow> Meters \<Rightarrow> Rpi \<Rightarrow> Meters \<Rightarrow> int \<Rightarrow> int \<Rightarrow> Meters \<Rightarrow> failure + Meters" where
  "driveDistLoop t cofs rpi1 rpDofs1 rpCount i sofar =
     (if i < rpCount
      then (let j = i + rpi1;
                j = (if j \<ge> NumRp t then j - NumRp t else j);
                rpi = j
            in case Rp t rpi of
                 Inl e \<Rightarrow> Inl e
               | Inr rp \<Rightarrow>
                   driveDistLoop t cofs rpi1 rpDofs1 rpCount (i + 1)
                     (if rpi = rpi1
                      then sofar + RoadPiece_Len rp cofs
                                  * ((RoadPiece_CenLen rp - rpDofs1) / RoadPiece_CenLen rp)
                      else sofar + RoadPiece_Len rp cofs))
      else Inr sofar)"
  by pat_completeness auto
termination
  by (relation "measure (\<lambda>(t, cofs, rpi1, rpDofs1, rpCount, i, sofar). nat (rpCount - i))") auto

declare driveDistLoop.simps [simp del]

definition DriveDist :: "Track \<Rightarrow> TrackPose \<Rightarrow> Meters \<Rightarrow> failure + Meters" where
  "DriveDist t p dofs =
     bindF (isFacingTrackwise t (DAngle p)) (\<lambda>fw.
       (let dofs1 = (if \<not> fw then dofs else Dofs p);
            dofs2 = (if \<not> fw then Dofs p else dofs)
        in bindF (RpiAndRpDofs t dofs1) (\<lambda>(rpi1, rpDofs1).
           bindF (RpiAndRpDofs t dofs2) (\<lambda>(rpi2, rpDofs2).
             if rpi1 = rpi2 \<and> dofs2 \<ge> dofs1
             then bindF (Rp t rpi1) (\<lambda>rp.
                    (let dist = dofs2 - dofs1
                     in Inr (if \<not> IsStraight rp
                             then dist * (CurveRadius rp (Cofs p) / CurveRadius rp 0)
                             else dist)))
             else (let rpCount = rpi2 - rpi1;
                       rpCount = (if rpi2 \<le> rpi1 then rpCount + NumRp t else rpCount)
                   in bindF (driveDistLoop t (Cofs p) rpi1 rpDofs1 rpCount 0 0) (\<lambda>dist.
                      bindF (Rp t rpi2) (\<lambda>rp2.
                        Inr (dist + RoadPiece_Len rp2 (Cofs p)
                                    * (rpDofs2 / RoadPiece_CenLen rp2)))))))))"

section \<open>Package track: modular tracks\<close>

definition TrackLenModStartLong :: Meters where
  "TrackLenModStartLong = 34 / 100"

definition TrackLenModStartShort :: Meters where
  "TrackLenModStartShort = 22 / 100"

definition TrackLenModStraight :: Meters where
  "TrackLenModStraight = 56 / 100"

definition TrackLenModCurve :: Meters where
  "TrackLenModCurve = (pi / 2) * (TrackLenModStraight / 2)"

text \<open>
  The loop of \<open>NewModularTrack\<close> over the characters of the topology string after
  the first one. The outer sum is a panic of \<open>NewRoadPiece\<close>, the inner one the error
  that is returned for a character other than \<open>S\<close>, \<open>L\<close> and \<open>R\<close>. The string is
  taken as ASCII, one character per byte; the text of the error messages is not part of
  the model.
\<close>

fun modularPieces :: "string \<Rightarrow> failure + (err + RoadPiece list)" where
  "modularPieces [] = Inr (Inr [])"
| "modularPieces (tc # tcs) =
     (case (if tc = CHR ''S'' then Inr (NewRoadPiece TrackLenModStraight 0)
            else if tc = CHR ''L'' then Inr (NewRoadPiece TrackLenModCurve Radians90DegreeTurnL)
            else if tc = CHR ''R'' then Inr (NewRoadPiece TrackLenModCurve Radians90DegreeTurnR)
            else Inl UnsupportedTopoChar) of
        Inl er \<Rightarrow> Inr (Inl er)
      | Inr (Inl e) \<Rightarrow> Inl e
      | Inr (Inr rp) \<Rightarrow>
          (case modularPieces tcs of
             Inl e \<Rightarrow> Inl e
           | Inr (Inl er) \<Rightarrow> Inr (Inl er)
           | Inr (Inr rps) \<Rightarrow> Inr (Inr (rp # rps))))"

text \<open>
  \<open>NewModularTrack\<close>. Reading \<open>topo[0]\<close> of the empty string is an index panic. The
  first character becomes the short start piece, and the long start piece is added at
  the end.
\<close>

definition NewModularTrack ::
  "Meters \<Rightarrow> Meters \<Rightarrow> string \<Rightarrow> failure + (Track option \<times> err option)" where
  "NewModularTrack w mc topo =
     (case topo of
        [] \<Rightarrow> Inl IndexOutOfRange
      | c0 # rest \<Rightarrow>
          if c0 \<noteq> CHR ''S'' then Inr (None, Some TopoMustStartWithS)
          else bindF (NewRoadPiece TrackLenModStartShort 0) (\<lambda>p0.
                 (case modularPieces rest of
                    Inl e \<Rightarrow> Inl e
                  | Inr (Inl er) \<Rightarrow> Inr (None, Some er)
                  | Inr (Inr ps) \<Rightarrow>
                      bindF (NewRoadPiece TrackLenModStartLong 0) (\<lambda>pl.
                        Inr (NewTrack w mc (p0 # ps @ [pl]))))))"

section \<open>Package track: regions\<close>

record Region =
  c1 :: TrackPoint
  rlen :: Meters
  rwidth :: Meters
  rtrack :: Track

definition NewRegion :: "Track \<Rightarrow> TrackPoint \<Rightarrow> Meters \<Rightarrow> Meters \<Rightarrow> failure + Region" where
  "NewRegion t c l w =
     (if Dofs c < 0 then Inl InvalidRegion
      else bindF (Track_CenLen t) (\<lambda>cl.
        if Dofs c \<ge> cl then Inl InvalidRegion
        else if w \<le> 0 then Inl InvalidRegion
        else if l \<le> 0 then Inl InvalidRegion
        else Inr \<lparr>c1 = c, rlen = l, rwidth = w, rtrack = t\<rparr>))"

definition CrossesFinishLine :: "Region \<Rightarrow> failure + bool" where
  "CrossesFinishLine tr =
     bindF (Track_CenLen (rtrack tr)) (\<lambda>cl. Inr (Dofs (c1 tr) + rlen tr \<ge> cl))"

text \<open>
  \<open>ContainsPoint\<close>. The result \<open>None\<close> is a call that does not return (a loop of
  \<open>NormalizeDofs\<close> that does not end), \<open>Some (Inl e)\<close> is a panic.
\<close>

definition ContainsPoint :: "Region \<Rightarrow> TrackPoint \<Rightarrow> (failure + bool) option" where
  "ContainsPoint tr p =
     (if Cofs p < Cofs (c1 tr) \<or> Cofs p \<ge> Cofs (c1 tr) + rwidth tr then Some (Inr False)
      else (case NormalizeDofs (rtrack tr) (Dofs p) of
              None \<Rightarrow> None
            | Some (Inl e) \<Rightarrow> Some (Inl e)
            | Some (Inr pd) \<Rightarrow>
                (case CrossesFinishLine tr of
                   Inl e \<Rightarrow> Some (Inl e)
                 | Inr True \<Rightarrow>
                     if pd \<ge> Dofs (c1 tr) then Some (Inr True)
                     else (case NormalizeDofs (rtrack tr) (Dofs (c1 tr) + rlen tr) of
                             None \<Rightarrow> None
                           | Some (Inl e) \<Rightarrow> Some (Inl e)
                           | Some (Inr c2Dofs) \<Rightarrow>
                               if pd < c2Dofs then Some (Inr True) else Some (Inr False))
                 | Inr False \<Rightarrow>
                     if pd < Dofs (c1 tr) \<or> pd \<ge> Dofs (c1 tr) + rlen tr then Some (Inr False)
                     else Some (Inr True))))"

section \<open>Package robo: vehicles\<close>

text \<open>
  The table of vehicle types. The colour is kept as the name of the colour constant.
  The lights of a vehicle (package \<open>light\<close>) are left out of the vehicle record and of
  the arguments of \<open>NewVehicle\<close>: no operation below reads them.
\<close>

record VehTypeInfo =
  FullName :: string
  Color :: string
  Width :: Meters
  Length :: Meters
  Mass :: real

definition vehTypeInfoTable :: "(string \<times> VehTypeInfo) list" where
  "vehTypeInfoTable =
     [(''gs'', \<lparr>FullName = ''Groundshock'', Color = ''Royalblue'', Width = 44 / 1000, Length = 8 / 100, Mass = 40\<rparr>),
      (''sk'', \<lparr>FullName = ''Skull'', Color = ''Darkslategray'', Width = 44 / 1000, Length = 8 / 100, Mass = 40\<rparr>),
      (''nk'', \<lparr>FullName = ''Nuke'', Color = ''Limegreen'', Width = 44 / 1000, Length = 8 / 100, Mass = 40\<rparr>),
      (''th'', \<lparr>FullName = ''Thermo'', Color = ''Orangered'', Width = 44 / 1000, Length = 8 / 100, Mass = 40\<rparr>),
      (''gu'', \<lparr>FullName = ''Guardian'', Color = ''Skyblue'', Width = 44 / 1000, Length = 8 / 100, Mass = 40\<rparr>),
      (''bb'', \<lparr>FullName = ''BigBang'', Color = ''Seagreen'', Width = 44 / 1000, Length = 8 / 100, Mass = 40\<rparr>),
      (''fw'', \<lparr>FullName = ''Freewheel'', Color = ''Lime'', Width = 44 / 1000, Length = 24 / 100, Mass = 40\<rparr>),
      (''xr'', \<lparr>FullName = ''X52'', Color = ''Red'', Width = 44 / 1000, Length = 24 / 100, Mass = 40\<rparr>),
      (''xi'', \<lparr>FullName = ''X52Ice'', Color = ''White'', Width = 44 / 1000, Length = 24 / 100, Mass = 40\<rparr>),
      (''dy'', \<lparr>FullName = ''Dynamo'', Color = ''Darkgray'', Width = 44 / 1000, Length = 8 / 100, Mass = 40\<rparr>),
      (''mm'', \<lparr>FullName = ''Mammoth'', Color = ''Lightsteelblue'', Width = 44 / 1000, Length = 8 / 100, Mass = 40\<rparr>),
      (''np'', \<lparr>FullName = ''NukePhantom'', Color = ''Ghostwhite'', Width = 44 / 1000, Length = 8 / 100, Mass = 40\<rparr>)]"

definition DefUturnRadius :: Meters where
  "DefUturnRadius = 5 / 100"

record Vehicle =
  trackLen :: Meters
  vtype :: string
  odom :: Meters
  curPose :: TrackPose
  curVel :: Vel
  cmdDspd :: MetersPerSec
  cmdDacl :: MetersPerSec2
  desDspd :: MetersPerSec
  cmdCofs :: Meters
  cmdCspd :: MetersPerSec
  desCofs :: Meters

definition NewVehicle :: "string \<Rightarrow> Meters \<Rightarrow> failure + Vehicle" where
  "NewVehicle vt tlen =
     (case map_of vehTypeInfoTable vt of
        None \<Rightarrow> Inl InvalidVehType
      | Some _ \<Rightarrow>
          Inr \<lparr>trackLen = tlen, vtype = vt, odom = 0,
               curPose = \<lparr>Dofs = 0, Cofs = 0, DAngle = 0\<rparr>,
               curVel = \<lparr>D = 0, C = 0\<rparr>,
               cmdDspd = 0, cmdDacl = 1 / 10, desDspd = 0,
               cmdCofs = 0, cmdCspd = 1 / 10, desCofs = 0\<rparr>)"

text \<open>A read of the table with a key that is not in it gives the zero value of Go.\<close>

definition Vehicle_Width :: "Vehicle \<Rightarrow> Meters" where
  "Vehicle_Width v = (case map_of vehTypeInfoTable (vtype v) of None \<Rightarrow> 0 | Some i \<Rightarrow> Width i)"

definition Vehicle_Length :: "Vehicle \<Rightarrow> Meters" where
  "Vehicle_Length v = (case map_of vehTypeInfoTable (vtype v) of None \<Rightarrow> 0 | Some i \<Rightarrow> Length i)"

definition CurTrackPose :: "Vehicle \<Rightarrow> TrackPose" where
  "CurTrackPose v = curPose v"

definition IsFacingTrackwise :: "Vehicle \<Rightarrow> failure + bool" where
  "IsFacingTrackwise v =
     (let absDAngle = \<bar>DAngle (curPose v)\<bar>
      in if absDAngle \<le> pi / 2 then Inr True
         else if absDAngle > pi / 2 \<and> absDAngle \<le> pi then Inr False
         else Inl InvalidDAngle)"

definition Reposition :: "Vehicle \<Rightarrow> TrackPose \<Rightarrow> Vehicle" where
  "Reposition v p = v\<lparr>curPose := p, desCofs := Cofs p, cmdCofs := Cofs p\<rparr>"

definition SetCmdDriveDspd :: "Vehicle \<Rightarrow> MetersPerSec \<Rightarrow> MetersPerSec2 \<Rightarrow> Vehicle" where
  "SetCmdDriveDspd v vs va = v\<lparr>cmdDspd := vs, cmdDacl := va\<rparr>"

definition SetCmdTrackCofs :: "Vehicle \<Rightarrow> Meters \<Rightarrow> MetersPerSec \<Rightarrow> Vehicle" where
  "SetCmdTrackCofs v cofs speed = v\<lparr>cmdCofs := cofs, cmdCspd := speed\<rparr>"

definition CmdUturn :: "Vehicle \<Rightarrow> Meters \<Rightarrow> failure + Vehicle" where
  "CmdUturn v radius =
     (let tp = CurTrackPose v;
          tp = (if Cofs tp < 0 then tp\<lparr>Cofs := Cofs tp + radius * 2\<rparr>
                else tp\<lparr>Cofs := Cofs tp - radius * 2\<rparr>)
      in bindF (IsFacingTrackwise v) (\<lambda>fw.
           (let tp = (if fw then tp\<lparr>DAngle := pi\<rparr> else tp\<lparr>DAngle := 0\<rparr>)
            in Inr (Reposition v tp))))"

section \<open>Package robo: the ideal simulator\<close>

text \<open>
  The body of the loop of \<open>IdealSimulator.Tick\<close> for one vehicle is split along the
  comments of the code. \<open>fdt\<close> is the time step in seconds,
  \<open>float64(dt) * 1e-9\<close>.
\<close>

text \<open>"Calc new dofs speed": the desired speed moves to the commanded speed by at most
  \<open>fdt * cmdDacl\<close>.\<close>

definition tickDspd :: "real \<Rightarrow> Vehicle \<Rightarrow> real" where
  "tickDspd fdt veh =
     (let desDspd0 = desDspd veh;
          cmdDspd0 = cmdDspd veh;
          dspdDelta = fdt * cmdDacl veh
      in if \<bar>desDspd0 - cmdDspd0\<bar> \<le> dspdDelta then cmdDspd0
         else if desDspd0 < cmdDspd0 then desDspd0 + dspdDelta
         else desDspd0 - dspdDelta)"

text \<open>"Calc new dofs": the forward increment for the new speed \<open>curDspd\<close>, and its
  scaling to the road centre on a curved piece. The quotient of the radii is a float64
  division with no guard on the denominator. With a zero radius at the offset of the
  vehicle the numerator is not zero (by the test before it), so the quotient is an
  infinity; its product with \<open>deltaFwd\<close> is an infinity when \<open>deltaFwd\<close> is not
  zero, and NaN when it is.\<close>

definition tickDeltaFwd :: "real \<Rightarrow> Vehicle \<Rightarrow> real \<Rightarrow> real" where
  "tickDeltaFwd fdt veh curDspd = curDspd * fdt + (cmdDacl veh / 2) * fdt * fdt"

definition tickDeltaDofs :: "RoadPiece \<Rightarrow> Vehicle \<Rightarrow> real \<Rightarrow> fval" where
  "tickDeltaDofs rp veh deltaFwd =
     (if CurveRadius rp 0 \<noteq> 0
      then (if CurveRadius rp (Cofs (CurTrackPose veh)) = 0
            then (if deltaFwd = 0 then NaNVal else InfVal)
            else FinVal (deltaFwd * (CurveRadius rp 0 / CurveRadius rp (Cofs (CurTrackPose veh)))))
      else FinVal deltaFwd)"

text \<open>"Calc new hofs": the commanded centre offset is clamped to the track, then the
  desired centre offset moves to it by at most \<open>fdt * |cmdCspd|\<close>. The result is
  \<open>(curHvel, absDeltaCofs, desCofs)\<close>.\<close>

definition tickClampCofs :: "Track \<Rightarrow> Vehicle \<Rightarrow> Vehicle" where
  "tickClampCofs trk veh =
     (if cmdCofs veh < - MaxCofs trk then veh\<lparr>cmdCofs := - MaxCofs trk\<rparr>
      else if cmdCofs veh > MaxCofs trk then veh\<lparr>cmdCofs := MaxCofs trk\<rparr>
      else veh)"

definition tickCofs :: "real \<Rightarrow> Vehicle \<Rightarrow> real \<times> real \<times> real" where
  "tickCofs fdt veh =
     (let desCofs0 = desCofs veh;
          cmdCofs0 = cmdCofs veh;
          curCspd = \<bar>cmdCspd veh\<bar>;
          maxDeltaCofs = fdt * curCspd
      in if desCofs0 < cmdCofs0
         then (if desCofs0 + maxDeltaCofs > cmdCofs0
               then (curCspd, cmdCofs0 - desCofs0, cmdCofs0)
               else (curCspd, maxDeltaCofs, desCofs0 + maxDeltaCofs))
         else if desCofs0 > cmdCofs0
         then (if desCofs0 - maxDeltaCofs < cmdCofs0
               then (- curCspd, desCofs0 - cmdCofs0, cmdCofs0)
               else (- curCspd, maxDeltaCofs, desCofs0 - maxDeltaCofs))
         else (0, 0, desCofs0))"

text \<open>"Update the vehicle's state", first part: the velocity and the distance offset
  before normalisation, by the facing direction.\<close>

definition tickMove :: "bool \<Rightarrow> real \<Rightarrow> real \<Rightarrow> Vehicle \<Rightarrow> Vehicle" where
  "tickMove fw curDspd deltaDofs veh =
     (if fw
      then veh\<lparr>curVel := (curVel veh)\<lparr>D := curDspd\<rparr>,
               curPose := (curPose veh)\<lparr>Dofs := Dofs (curPose veh) + deltaDofs\<rparr>\<rparr>
      else veh\<lparr>curVel := (curVel veh)\<lparr>D := - curDspd\<rparr>,
               curPose := (curPose veh)\<lparr>Dofs := Dofs (curPose veh) - deltaDofs\<rparr>\<rparr>)"

text \<open>Second part, after \<open>NormalizeDofs\<close> has given \<open>nd\<close>: the pose, the lateral
  velocity, the pose angle and the odometer.\<close>

definition tickFinish :: "real \<Rightarrow> real \<Rightarrow> real \<Rightarrow> real \<Rightarrow> real \<Rightarrow> real \<Rightarrow> Vehicle \<Rightarrow> Vehicle" where
  "tickFinish nd desCofs1 curHvel curDspd deltaFwd absDeltaCofs veh =
     (let veh = veh\<lparr>curPose := (curPose veh)\<lparr>Dofs := nd\<rparr>\<rparr>;
          veh = veh\<lparr>curPose := (curPose veh)\<lparr>Cofs := desCofs1\<rparr>\<rparr>;
          veh = veh\<lparr>curVel := (curVel veh)\<lparr>C := curHvel\<rparr>\<rparr>;
          veh = (if curDspd > 0
                 then veh\<lparr>curPose := (curPose veh)\<lparr>DAngle :=
                            Atan2 (C (curVel veh)) (D (curVel veh))\<rparr>\<rparr>
                 else veh);
          pathLen = sqrt (deltaFwd * deltaFwd + absDeltaCofs * absDeltaCofs)
      in veh\<lparr>odom := odom veh + pathLen\<rparr>)"

text \<open>
  The whole body. The result \<open>None\<close> is a tick that does not return,
  \<open>Some (Inl e)\<close> a panic or, for \<open>DofsNotANumber\<close>, the tick that stores NaN.

  When the increment is not finite, the distance offset plus or minus the increment is
  an infinity or NaN, and \<open>NormalizeDofs\<close> is called with it. The track length is read
  by the first test of the second loop or by the first step of the first loop. At an
  infinity, the loop that applies steps from the infinity to itself (\<open>+Inf - l = +Inf\<close>,
  \<open>-Inf + l = -Inf\<close>) and its test stays true: the call does not return. At NaN both
  tests are false and the call returns NaN, which the tick stores.
\<close>

definition tickVehicle :: "SimTime \<Rightarrow> Track \<Rightarrow> Vehicle \<Rightarrow> (failure + Vehicle) option" where
  "tickVehicle dt trk veh =
     (case RpiAndRpDofs trk (Dofs (CurTrackPose veh)) of
        Inl e \<Rightarrow> Some (Inl e)
      | Inr (rpi, _) \<Rightarrow>
     (case Rp trk rpi of
        Inl e \<Rightarrow> Some (Inl e)
      | Inr rp \<Rightarrow>
     (let fdt = real (unat dt) * (1 / 1000000000);
          desDspd1 = tickDspd fdt veh;
          curDspd = desDspd1;
          deltaFwd = tickDeltaFwd fdt veh curDspd;
          fdeltaDofs = tickDeltaDofs rp veh deltaFwd;
          veh = tickClampCofs trk veh;
          (curHvel, absDeltaCofs, desCofs1) = tickCofs fdt veh;
          veh = veh\<lparr>desDspd := desDspd1, desCofs := desCofs1\<rparr>
      in
     (case IsFacingTrackwise veh of
        Inl e \<Rightarrow> Some (Inl e)
      | Inr fw \<Rightarrow>
     (case fdeltaDofs of
        InfVal \<Rightarrow> (case Track_CenLen trk of Inl e \<Rightarrow> Some (Inl e) | Inr l \<Rightarrow> None)
      | NaNVal \<Rightarrow> (case Track_CenLen trk of
                    Inl e \<Rightarrow> Some (Inl e)
                  | Inr l \<Rightarrow> Some (Inl DofsNotANumber))
      | FinVal deltaDofs \<Rightarrow>
     (let veh = tickMove fw curDspd deltaDofs veh
      in
     (case NormalizeDofs trk (Dofs (curPose veh)) of
        None \<Rightarrow> None
      | Some (Inl e) \<Rightarrow> Some (Inl e)
      | Some (Inr nd) \<Rightarrow>
          Some (Inr (tickFinish nd desCofs1 curHvel curDspd deltaFwd absDeltaCofs veh)))))))))"

text \<open>The loop of \<open>Tick\<close> over the vehicles, in order; the first failure ends it.\<close>

fun Tick :: "SimTime \<Rightarrow> Track \<Rightarrow> Vehicle list \<Rightarrow> (failure + Vehicle list) option" where
  "Tick dt trk [] = Some (Inr [])"
| "Tick dt trk (veh # vehs) =
     (case tickVehicle dt trk veh of
        None \<Rightarrow> None
      | Some (Inl e) \<Rightarrow> Some (Inl e)
      | Some (Inr veh') \<Rightarrow>
          (case Tick dt trk vehs of
             None \<Rightarrow> None
           | Some (Inl e) \<Rightarrow> Some (Inl e)
           | Some (Inr vehs') \<Rightarrow> Some (Inr (veh' # vehs'))))"

section \<open>Package robo: the collision detector\<close>

record VehicleCollisionInfo =
  VehId :: int
  POI :: Point

text \<open>The array \<open>VehInfo\<close> of two entries is a pair.\<close>

record CollisionEvent =
  ImpactTime :: SimTime
  VehInfo :: "VehicleCollisionInfo \<times> VehicleCollisionInfo"

record vehPair =
  Veh1 :: int
  Veh2 :: int

record CollisionDetector =
  maxDimension :: "vehPair \<rightharpoonup> Meters"
  curCollisions :: "vehPair \<rightharpoonup> CollisionEvent"
  newCollisions :: "vehPair \<rightharpoonup> CollisionEvent"

record vehCollisionInputs =
  dofs :: Meters
  pose :: Pose
  vlen :: Meters
  vwidth :: Meters

text \<open>A loop over a list whose body may panic: the first panic ends the loop.\<close>

fun foldF :: "('a \<Rightarrow> 's \<Rightarrow> failure + 's) \<Rightarrow> 'a list \<Rightarrow> 's \<Rightarrow> failure + 's" where
  "foldF f [] s = Inr s"
| "foldF f (x # xs) s = (case f x s of Inl e \<Rightarrow> Inl e | Inr s' \<Rightarrow> foldF f xs s')"

definition NewCollisionDetector :: "Track \<Rightarrow> Vehicle list \<Rightarrow> CollisionDetector" where
  "NewCollisionDetector trk vehs =
     (let md = foldl (\<lambda>m v1.
                 foldl (\<lambda>m v2.
                   (let veh1 = vehs ! v1;
                        veh2 = vehs ! v2;
                        lmax = max (Vehicle_Length veh1) (Vehicle_Length veh2);
                        wmax = max (Vehicle_Width veh1) (Vehicle_Width veh2);
                        mx = max lmax wmax
                    in m(\<lparr>Veh1 = int v1, Veh2 = int v2\<rparr> \<mapsto> mx)))
                   m [v1 + 1 ..< length vehs])
                 Map.empty [0 ..< length vehs]
      in \<lparr>maxDimension = md, curCollisions = Map.empty, newCollisions = Map.empty\<rparr>)"

definition NewCollisions :: "CollisionDetector \<Rightarrow> CollisionEvent set \<times> CollisionDetector" where
  "NewCollisions cd = (ran (newCollisions cd), cd\<lparr>newCollisions := Map.empty\<rparr>)"

definition CurCollisions :: "CollisionDetector \<Rightarrow> CollisionEvent set" where
  "CurCollisions cd = ran (curCollisions cd)"

text \<open>
  \<open>calcPointOfImpact\<close>: with each vehicle in turn as the reference \<open>rv\<close>, the corners
  of the other vehicle \<open>ov\<close> that lie inside the rectangle of the reference.
\<close>

definition cornersAbs :: "vehCollisionInputs \<Rightarrow> Point list" where
  "cornersAbs ov =
     (let ovHalfLen = vlen ov / 2; ovHalfWid = vwidth ov / 2
      in [Point.truncate (AdvancePose (pose ov) \<lparr>X = ovHalfLen, Y = ovHalfWid, Theta = 0\<rparr>),
          Point.truncate (AdvancePose (pose ov) \<lparr>X = ovHalfLen, Y = - ovHalfWid, Theta = 0\<rparr>),
          Point.truncate (AdvancePose (pose ov) \<lparr>X = - ovHalfLen, Y = ovHalfWid, Theta = 0\<rparr>),
          Point.truncate (AdvancePose (pose ov) \<lparr>X = - ovHalfLen, Y = - ovHalfWid, Theta = 0\<rparr>)])"

definition cornersInside :: "vehCollisionInputs \<Rightarrow> vehCollisionInputs \<Rightarrow> Point list" where
  "cornersInside rv ov =
     (let rvHalfLen = vlen rv / 2; rvHalfWid = vwidth rv / 2
      in filter (\<lambda>cp.
           (let point = Point.truncate
                          (RelativeTo \<lparr>X = X cp, Y = Y cp, Theta = 0\<rparr> (pose rv))
            in \<not> (X point > rvHalfLen \<or> X point < - rvHalfLen
                   \<or> Y point > rvHalfWid \<or> Y point < - rvHalfWid)))
           (cornersAbs ov))"

definition calcPointOfImpact :: "vehCollisionInputs \<times> vehCollisionInputs \<Rightarrow> bool \<times> Point" where
  "calcPointOfImpact inputs =
     (let collisionPoints = cornersInside (fst inputs) (snd inputs)
                            @ cornersInside (snd inputs) (fst inputs)
      in if length collisionPoints = 0 then (False, \<lparr>X = 0, Y = 0\<rparr>)
         else (let collisionPoint =
                     foldl (\<lambda>acc cp. acc\<lparr>X := X acc + X cp, Y := Y acc + Y cp\<rparr>)
                       \<lparr>X = 0, Y = 0\<rparr> collisionPoints;
                   collisionPoint = collisionPoint
                     \<lparr>X := X collisionPoint / real (length collisionPoints),
                      Y := Y collisionPoint / real (length collisionPoints)\<rparr>
               in (True, collisionPoint)))"

text \<open>
  The event that \<open>updateHelper\<close> makes for a new collision of the pair \<open>(v0, v1)\<close>
  with the inputs \<open>in0\<close>, \<open>in1\<close>: the point of impact relative to each vehicle, and
  the time \<open>now\<close>.
\<close>

definition newCollisionEvent ::
  "SimTime \<Rightarrow> nat \<Rightarrow> nat \<Rightarrow> vehCollisionInputs \<Rightarrow> vehCollisionInputs \<Rightarrow> Point
     \<Rightarrow> CollisionEvent" where
  "newCollisionEvent now v0 v1 in0 in1 absPOI =
     (let impactPose = \<lparr>X = X absPOI, Y = Y absPOI, Theta = 0\<rparr>;
          vehInfo =
            (\<lparr>VehId = int v0, POI = Point.truncate (RelativeTo impactPose (pose in0))\<rparr>,
             \<lparr>VehId = int v1, POI = Point.truncate (RelativeTo impactPose (pose in1))\<rparr>)
      in \<lparr>ImpactTime = now, VehInfo = vehInfo\<rparr>)"

text \<open>
  The body of the inner loop of \<open>updateHelper\<close> for the pair \<open>(v0, v1)\<close>. A key that
  is not in \<open>maxDimension\<close> reads as 0.
\<close>

definition updatePair ::
  "SimTime \<Rightarrow> Track \<Rightarrow> vehCollisionInputs list \<Rightarrow> nat \<Rightarrow> nat
     \<Rightarrow> CollisionDetector \<Rightarrow> failure + CollisionDetector" where
  "updatePair now trk allInputs v0 v1 cd =
     (let pair = \<lparr>Veh1 = int v0, Veh2 = int v1\<rparr>;
          maxDim = (case maxDimension cd pair of None \<Rightarrow> 0 | Some m \<Rightarrow> m)
      in bindF (sliceAt allInputs (int v0)) (\<lambda>in0.
         bindF (sliceAt allInputs (int v1)) (\<lambda>in1.
         bindF (DofsDist trk (dofs in0) (dofs in1)) (\<lambda>dd.
           if dd > maxDim
           then Inr (cd\<lparr>curCollisions := (curCollisions cd)(pair := None)\<rparr>)
           else (let (isCollision, absPOI) = calcPointOfImpact (in0, in1)
                 in if isCollision
                    then (if curCollisions cd pair = None
                          then (let newEvent = newCollisionEvent now v0 v1 in0 in1 absPOI
                                in Inr (cd\<lparr>curCollisions := (curCollisions cd)(pair \<mapsto> newEvent),
                                           newCollisions := (newCollisions cd)(pair \<mapsto> newEvent)\<rparr>))
                          else Inr cd)
                    else Inr (cd\<lparr>curCollisions := (curCollisions cd)(pair := None)\<rparr>))))))"

definition updateHelper ::
  "SimTime \<Rightarrow> Track \<Rightarrow> vehCollisionInputs list \<Rightarrow> CollisionDetector
     \<Rightarrow> failure + CollisionDetector" where
  "updateHelper now trk allInputs cd =
     foldF (\<lambda>v0. foldF (\<lambda>v1. updatePair now trk allInputs v0 v1)
                    [v0 + 1 ..< length allInputs])
           [0 ..< length allInputs] cd"

text \<open>
  The two tests that \<open>updateHelper\<close> makes for the pair \<open>(v0, v1)\<close>, as one
  predicate over the table \<open>md\<close> of maximum dimensions: the pair is not pruned by its
  distance along the track, and \<open>calcPointOfImpact\<close> finds a corner of one rectangle
  inside the other. This is what the detector takes as the two vehicles overlapping.
\<close>

definition pairCollides ::
  "Track \<Rightarrow> (vehPair \<rightharpoonup> Meters) \<Rightarrow> vehCollisionInputs list \<Rightarrow> nat \<Rightarrow> nat \<Rightarrow> bool" where
  "pairCollides trk md allInputs v0 v1 =
     (case DofsDist trk (dofs (allInputs ! v0)) (dofs (allInputs ! v1)) of
        Inl e \<Rightarrow> False
      | Inr dd \<Rightarrow>
          (if dd > (case md \<lparr>Veh1 = int v0, Veh2 = int v1\<rparr> of None \<Rightarrow> 0 | Some m \<Rightarrow> m)
           then False
           else fst (calcPointOfImpact (allInputs ! v0, allInputs ! v1))))"

text \<open>
  Successive calls of \<open>updateHelper\<close>, one for each tick \<open>(now, allInputs)\<close> of a
  list, as the robotics system makes them.
\<close>

definition updateTicks ::
  "Track \<Rightarrow> (SimTime \<times> vehCollisionInputs list) list \<Rightarrow> CollisionDetector
     \<Rightarrow> failure + CollisionDetector" where
  "updateTicks trk ticks cd = foldF (\<lambda>tick. updateHelper (fst tick) trk (snd tick)) ticks cd"

section \<open>Test data\<close>

text \<open>
  The track of \<open>TestDriveDistStraights\<close>: four straight pieces of one metre, width
  \<open>defTrackWidth = 0.2\<close>. It is not a loop; \<open>NewTrack\<close> returns the track together
  with the error, and the test uses the track.
\<close>

definition straight4 :: "RoadPiece list" where
  "straight4 = replicate 4 \<lparr>cenLen = 1, dAngle = 0\<rparr>"

definition track4 :: Track where
  "track4 = the (fst (NewTrack (1 / 5) ((1 / 5) / 2) straight4))"

text \<open>
  The starter kit track \<open>microloop\<close>, topology \<open>SLLSLL\<close>: short start piece, two left
  curves, a straight, two left curves, long start piece. Width 0.3 as in the region
  tests; the maximum centre offset is given as 0.
\<close>

definition microPieces :: "RoadPiece list" where
  "microPieces =
     [\<lparr>cenLen = TrackLenModStartShort, dAngle = 0\<rparr>,
      \<lparr>cenLen = TrackLenModCurve, dAngle = pi / 2\<rparr>,
      \<lparr>cenLen = TrackLenModCurve, dAngle = pi / 2\<rparr>,
      \<lparr>cenLen = TrackLenModStraight, dAngle = 0\<rparr>,
      \<lparr>cenLen = TrackLenModCurve, dAngle = pi / 2\<rparr>,
      \<lparr>cenLen = TrackLenModCurve, dAngle = pi / 2\<rparr>,
      \<lparr>cenLen = TrackLenModStartLong, dAngle = 0\<rparr>]"

definition microloop :: Track where
  "microloop = the (fst (NewTrack (3 / 10) 0 microPieces))"

text \<open>The centre length of the microloop: \<open>0.22 + 4 * (pi / 2) * 0.28 + 0.56 + 0.34\<close>.\<close>

definition microLen :: Meters where
  "microLen = 28 / 25 + 14 * pi / 25"

text \<open>
  A Groundshock on the microloop as \<open>NewVehicle\<close> makes it (at rest on the finish
  line), commanded with \<open>SetCmdDriveDspd\<close> to 1 m/s at 2 m/s^2.
\<close>

definition vehRest :: Vehicle where
  "vehRest = \<lparr>trackLen = microLen, vtype = ''gs'', odom = 0,
               curPose = \<lparr>Dofs = 0, Cofs = 0, DAngle = 0\<rparr>,
               curVel = \<lparr>D = 0, C = 0\<rparr>,
               cmdDspd = 1, cmdDacl = 2, desDspd = 0,
               cmdCofs = 0, cmdCspd = 1 / 10, desCofs = 0\<rparr>"

text \<open>A new Groundshock repositioned 3 cm to the left of the road centre.\<close>

definition vehLane :: Vehicle where
  "vehLane = \<lparr>trackLen = microLen, vtype = ''gs'', odom = 0,
               curPose = \<lparr>Dofs = 0, Cofs = 3 / 100, DAngle = 0\<rparr>,
               curVel = \<lparr>D = 0, C = 0\<rparr>,
               cmdDspd = 0, cmdDacl = 1 / 10, desDspd = 0,
               cmdCofs = 3 / 100, cmdCspd = 1 / 10, desCofs = 3 / 100\<rparr>"

text \<open>
  A new Groundshock repositioned into the first left curve (distance offset 0.3), at
  the centre of curvature of the curve: its centre offset is the curve radius
  \<open>CurveRadius(0) = 0.28\<close> of the piece.
\<close>

definition vehCentre :: Vehicle where
  "vehCentre = \<lparr>trackLen = microLen, vtype = ''gs'', odom = 0,
               curPose = \<lparr>Dofs = 3 / 10, Cofs = 28 / 100, DAngle = 0\<rparr>,
               curVel = \<lparr>D = 0, C = 0\<rparr>,
               cmdDspd = 0, cmdDacl = 1 / 10, desDspd = 0,
               cmdCofs = 28 / 100, cmdCspd = 1 / 10, desCofs = 28 / 100\<rparr>"

text \<open>A new Groundshock commanded with \<open>SetCmdTrackCofs\<close> to the centre offset 1 m, far
  outside the track.\<close>

definition vehWide :: Vehicle where
  "vehWide = \<lparr>trackLen = microLen, vtype = ''gs'', odom = 0,
               curPose = \<lparr>Dofs = 0, Cofs = 0, DAngle = 0\<rparr>,
               curVel = \<lparr>D = 0, C = 0\<rparr>,
               cmdDspd = 0, cmdDacl = 1 / 10, desDspd = 0,
               cmdCofs = 1, cmdCspd = 1 / 10, desCofs = 0\<rparr>"

text \<open>
  The collision detector for two Groundshocks, and inputs of \<open>updateHelper\<close> for them
  (length 0.08, width 0.044). \<open>inHome\<close> is on the finish line. \<open>inBeside\<close> is
  5 cm further along the start piece and 1 cm to the left, so that the rectangles
  overlap by 3 cm along the road and by 3.4 cm across it, and every corner of either
  rectangle is at least 1 cm away from the edges of the other. \<open>inAhead\<close>
  is 20 cm further along the start piece, clear of \<open>inHome\<close>. \<open>inOver\<close> has the
  Cartesian pose of \<open>inHome\<close> but is one metre away in distance offset, as on an
  overpass.
\<close>

definition cdTwo :: CollisionDetector where
  "cdTwo = NewCollisionDetector microloop [vehRest, vehLane]"

definition inHome :: vehCollisionInputs where
  "inHome = \<lparr>dofs = 0, pose = \<lparr>X = 0, Y = 0, Theta = 0\<rparr>, vlen = 8 / 100, vwidth = 44 / 1000\<rparr>"

definition inBeside :: vehCollisionInputs where
  "inBeside = \<lparr>dofs = 5 / 100, pose = \<lparr>X = 5 / 100, Y = 1 / 100, Theta = 0\<rparr>,
               vlen = 8 / 100, vwidth = 44 / 1000\<rparr>"

definition inAhead :: vehCollisionInputs where
  "inAhead = \<lparr>dofs = 20 / 100, pose = \<lparr>X = 20 / 100, Y = 0, Theta = 0\<rparr>,
              vlen = 8 / 100, vwidth = 44 / 1000\<rparr>"

definition inOver :: vehCollisionInputs where
  "inOver = \<lparr>dofs = 1, pose = \<lparr>X = 0, Y = 0, Theta = 0\<rparr>, vlen = 8 / 100, vwidth = 44 / 1000\<rparr>"

text \<open>The time step \<open>simDeltaT\<close> of the robotics system: \<open>1e7\<close> ns, that is 0.01 s.\<close>

definition simDeltaT :: SimTime where
  "simDeltaT = 10000000"

section \<open>Facts about the constructors and the test track\<close>

lemma NewTrack_fields:
  assumes "NewTrack w mc ps = (Some t, e)"
  shows "pieces t = ps"
    and "entryDofs t = entryDofsFrom 0 ps"
    and "width t = w"
    and "maxCofs t = (if mc = 0 then w / 2 else mc)"
    and "entryPoses t = entryPosesFrom \<lparr>X = 0, Y = 0, Theta = 0\<rparr> ps"
  using assms by (auto simp: NewTrack_def Let_def split: if_splits)

lemma NewTrack_returns_track:
  "4 \<le> length ps \<Longrightarrow> 0 < w \<Longrightarrow> 0 \<le> mc \<Longrightarrow> \<exists>t e. NewTrack w mc ps = (Some t, e)"
  by (auto simp: NewTrack_def Let_def)

lemma track4_NewTrack: "\<exists>e. NewTrack (1 / 5) ((1 / 5) / 2) straight4 = (Some track4, e)"
  unfolding track4_def using NewTrack_returns_track [of straight4 "1 / 5" "(1 / 5) / 2"]
  by (auto simp: straight4_def)

lemma track4_pieces: "pieces track4 = straight4"
  using track4_NewTrack NewTrack_fields(1) by blast

lemma track4_entryDofs: "entryDofs track4 = [0, 1, 2, 3, 4]"
proof -
  have "entryDofs track4 = entryDofsFrom 0 straight4"
    using track4_NewTrack NewTrack_fields(2) by blast
  then show ?thesis
    by (simp add: straight4_def RoadPiece_Len_def numeral_eq_Suc)
qed

lemma track4_CenLen: "Track_CenLen track4 = Inr 4"
  by (simp add: Track_CenLen_def track4_pieces track4_entryDofs sliceAt_def straight4_def)

section \<open>Driving distance\<close>

lemma track4_NumRp: "NumRp track4 = 4"
  by (simp add: NumRp_def track4_pieces straight4_def)

lemma track4_Rp: "0 \<le> i \<Longrightarrow> i < 4 \<Longrightarrow> Rp track4 i = Inr \<lparr>cenLen = 1, dAngle = 0\<rparr>"
  by (simp add: Rp_def assertValidRpi_def bindF_def track4_pieces straight4_def sliceAt_def)

lemma track4_RpiAndRpDofs_0: "RpiAndRpDofs track4 0 = Inr (0, 0)"
  by (simp add: RpiAndRpDofs_def assertValidDofs_def track4_CenLen bindF_def track4_pieces
      track4_entryDofs straight4_def sliceAt_def RoadPiece_CenLen_def rpiSearch.simps)

lemma track4_RpiAndRpDofs_39: "RpiAndRpDofs track4 (39 / 10) = Inr (3, 9 / 10)"
  by (simp add: RpiAndRpDofs_def assertValidDofs_def track4_CenLen bindF_def track4_pieces
      track4_entryDofs straight4_def sliceAt_def RoadPiece_CenLen_def rpiSearch.simps)

lemma track4_RpiAndRpDofs_02: "RpiAndRpDofs track4 (1 / 5) = Inr (0, 1 / 5)"
  by (simp add: RpiAndRpDofs_def assertValidDofs_def track4_CenLen bindF_def track4_pieces
      track4_entryDofs straight4_def sliceAt_def RoadPiece_CenLen_def rpiSearch.simps)

text \<open>
  Claim C6. On the track of four straight pieces of one metre, the driving distance
  from the pose at distance offset 0 on the road centre, facing trackwise, to the
  distance offset 3.9 is 3.9; from the same point facing counter-trackwise
  (\<open>DAngle = pi\<close>) to the distance offset 0.2 it is 3.8: the sum runs over all four
  pieces and across the finish line.
\<close>

theorem DriveDist_straight4:
  "DriveDist track4 \<lparr>Dofs = 0, Cofs = 0, DAngle = 0\<rparr> (39 / 10) = Inr (39 / 10)
   \<and> DriveDist track4 \<lparr>Dofs = 0, Cofs = 0, DAngle = pi\<rparr> (2 / 10) = Inr (38 / 10)"
  by (simp add: DriveDist_def isFacingTrackwise_def bindF_def track4_RpiAndRpDofs_0
      track4_RpiAndRpDofs_39 track4_RpiAndRpDofs_02 track4_NumRp track4_Rp
      RoadPiece_Len_def RoadPiece_CenLen_def driveDistLoop.simps)

section \<open>Vehicle commands\<close>

text \<open>
  Claim C7, as stated, fails: \<open>CmdUturn\<close> does not negate the centre offset. For the
  vehicle 3 cm left of the road centre and the default U-turn radius of 5 cm, the new
  centre offset is \<open>0.03 - 0.10 = -0.07\<close>, and the mirror image would be \<open>-0.03\<close>.
\<close>

theorem CmdUturn_not_mirrored:
  "CmdUturn vehLane DefUturnRadius
     = Inr (vehLane\<lparr>curPose := \<lparr>Dofs = 0, Cofs = - (7 / 100), DAngle = pi\<rparr>,
                    desCofs := - (7 / 100), cmdCofs := - (7 / 100)\<rparr>)
   \<and> - (7 / 100) \<noteq> - Cofs (curPose vehLane)"
  by (simp add: CmdUturn_def vehLane_def DefUturnRadius_def CurTrackPose_def
      IsFacingTrackwise_def bindF_def Reposition_def)

text \<open>
  Claim C7, amended. For every vehicle whose \<open>DAngle\<close> has magnitude at most \<open>pi\<close>,
  \<open>CmdUturn\<close> with turn radius \<open>radius\<close> returns a vehicle whose facing classification is
  flipped (\<open>DAngle\<close> is \<open>pi\<close> if it was facing trackwise and 0 if it was facing
  counter-trackwise) and whose centre offset is moved by the turn diameter
  \<open>2 * radius\<close> towards the road centre: increased when it was negative, decreased
  otherwise. The distance offset is kept, and the desired and the commanded centre
  offset are set to the new centre offset.
\<close>

theorem CmdUturn_flips_and_shifts:
  assumes "\<bar>DAngle (curPose v)\<bar> \<le> pi"
  shows "\<exists>v'. CmdUturn v radius = Inr v'
           \<and> DAngle (curPose v') = (if \<bar>DAngle (curPose v)\<bar> \<le> pi / 2 then pi else 0)
           \<and> IsFacingTrackwise v = Inr (\<bar>DAngle (curPose v)\<bar> \<le> pi / 2)
           \<and> IsFacingTrackwise v' = Inr (\<not> \<bar>DAngle (curPose v)\<bar> \<le> pi / 2)
           \<and> Cofs (curPose v') = (if Cofs (curPose v) < 0
                                    then Cofs (curPose v) + radius * 2
                                    else Cofs (curPose v) - radius * 2)
           \<and> Dofs (curPose v') = Dofs (curPose v)
           \<and> desCofs v' = Cofs (curPose v')
           \<and> cmdCofs v' = Cofs (curPose v')"
  using assms
  by (auto simp: CmdUturn_def CurTrackPose_def IsFacingTrackwise_def bindF_def
      Reposition_def Let_def)

theorem CmdUturn_flips_and_shifts_witness:
  "\<bar>DAngle (curPose vehLane)\<bar> \<le> pi
   \<and> (\<exists>v'. CmdUturn vehLane DefUturnRadius = Inr v'
          \<and> DAngle (curPose v') = pi
          \<and> IsFacingTrackwise vehLane = Inr True
          \<and> IsFacingTrackwise v' = Inr False
          \<and> Cofs (curPose v') = 3 / 100 - 5 / 100 * 2
          \<and> Dofs (curPose v') = 0
          \<and> desCofs v' = Cofs (curPose v')
          \<and> cmdCofs v' = Cofs (curPose v'))"
proof -
  have h: "\<bar>DAngle (curPose vehLane)\<bar> \<le> pi"
    by (simp add: vehLane_def)
  from CmdUturn_flips_and_shifts [OF h, of DefUturnRadius] h
  show ?thesis
    by (simp add: vehLane_def DefUturnRadius_def)
qed

section \<open>Angles and poses\<close>

lemma NormalizeRadians_up_props:
  "- pi \<le> NormalizeRadians_up a
   \<and> (\<exists>k::int. NormalizeRadians_up a = a + 2 * pi * real_of_int k)
   \<and> (- pi \<le> a \<longrightarrow> NormalizeRadians_up a = a)
   \<and> (a < - pi \<longrightarrow> NormalizeRadians_up a < pi)"
proof (induction a rule: NormalizeRadians_up.induct)
  case (1 a)
  show ?case
  proof (cases "a < - pi")
    case False
    then have "NormalizeRadians_up a = a"
      by (subst NormalizeRadians_up.simps) simp
    moreover have "a = a + 2 * pi * real_of_int 0" by simp
    ultimately show ?thesis using False by (metis not_less)
  next
    case True
    then have step: "NormalizeRadians_up a = NormalizeRadians_up (a + 2 * pi)"
      by (subst NormalizeRadians_up.simps) simp
    from "1.IH" [OF True] obtain k :: int where
      lo: "- pi \<le> NormalizeRadians_up (a + 2 * pi)"
      and k: "NormalizeRadians_up (a + 2 * pi) = a + 2 * pi + 2 * pi * real_of_int k"
      and same: "- pi \<le> a + 2 * pi \<longrightarrow> NormalizeRadians_up (a + 2 * pi) = a + 2 * pi"
      and below: "a + 2 * pi < - pi \<longrightarrow> NormalizeRadians_up (a + 2 * pi) < pi"
      by blast
    have "NormalizeRadians_up a = a + 2 * pi * real_of_int (k + 1)"
      using k step by (simp add: algebra_simps)
    then have ex: "\<exists>k::int. NormalizeRadians_up a = a + 2 * pi * real_of_int k" by blast
    have "NormalizeRadians_up a < pi"
      using same below True step by (cases "a + 2 * pi < - pi") auto
    with lo ex True step show ?thesis by simp
  qed
qed

lemma NormalizeRadians_down_props:
  "NormalizeRadians_down a \<le> pi
   \<and> (\<exists>k::int. NormalizeRadians_down a = a + 2 * pi * real_of_int k)
   \<and> (a \<le> pi \<longrightarrow> NormalizeRadians_down a = a)
   \<and> (pi < a \<longrightarrow> - pi < NormalizeRadians_down a)"
proof (induction a rule: NormalizeRadians_down.induct)
  case (1 a)
  show ?case
  proof (cases "pi < a")
    case False
    then have "NormalizeRadians_down a = a"
      by (subst NormalizeRadians_down.simps) simp
    moreover have "a = a + 2 * pi * real_of_int 0" by simp
    ultimately show ?thesis using False by (metis not_less)
  next
    case True
    then have step: "NormalizeRadians_down a = NormalizeRadians_down (a - 2 * pi)"
      by (subst NormalizeRadians_down.simps) simp
    from "1.IH" [OF True] obtain k :: int where
      hi: "NormalizeRadians_down (a - 2 * pi) \<le> pi"
      and k: "NormalizeRadians_down (a - 2 * pi) = a - 2 * pi + 2 * pi * real_of_int k"
      and same: "a - 2 * pi \<le> pi \<longrightarrow> NormalizeRadians_down (a - 2 * pi) = a - 2 * pi"
      and above: "pi < a - 2 * pi \<longrightarrow> - pi < NormalizeRadians_down (a - 2 * pi)"
      by blast
    have "NormalizeRadians_down a = a + 2 * pi * real_of_int (k - 1)"
      using k step by (simp add: algebra_simps)
    then have ex: "\<exists>k::int. NormalizeRadians_down a = a + 2 * pi * real_of_int k" by blast
    have "- pi < NormalizeRadians_down a"
      using same above True step by (cases "pi < a - 2 * pi") auto
    with hi ex True step show ?thesis by simp
  qed
qed

lemma NormalizeRadians_range: "- pi \<le> NormalizeRadians a \<and> NormalizeRadians a \<le> pi"
proof -
  let ?u = "NormalizeRadians_up a"
  have u: "- pi \<le> ?u" using NormalizeRadians_up_props [of a] by blast
  have d: "NormalizeRadians_down ?u \<le> pi" using NormalizeRadians_down_props [of ?u] by blast
  have "- pi \<le> NormalizeRadians_down ?u"
  proof (cases "pi < ?u")
    case True
    then show ?thesis using NormalizeRadians_down_props [of ?u] by auto
  next
    case False
    then have "NormalizeRadians_down ?u = ?u" using NormalizeRadians_down_props [of ?u] by auto
    then show ?thesis using u by simp
  qed
  with d show ?thesis by (simp add: NormalizeRadians_def)
qed

lemma NormalizeRadians_shift: "\<exists>k::int. NormalizeRadians a = a + 2 * pi * real_of_int k"
proof -
  obtain k1 :: int where k1: "NormalizeRadians_up a = a + 2 * pi * real_of_int k1"
    using NormalizeRadians_up_props [of a] by blast
  obtain k2 :: int where
    k2: "NormalizeRadians_down (NormalizeRadians_up a)
           = NormalizeRadians_up a + 2 * pi * real_of_int k2"
    using NormalizeRadians_down_props [of "NormalizeRadians_up a"] by blast
  have "NormalizeRadians a = a + 2 * pi * real_of_int (k1 + k2)"
    using k1 k2 by (simp add: NormalizeRadians_def algebra_simps)
  then show ?thesis by blast
qed

lemma NormalizeRadians_id: "- pi \<le> a \<Longrightarrow> a \<le> pi \<Longrightarrow> NormalizeRadians a = a"
  using NormalizeRadians_up_props [of a] NormalizeRadians_down_props [of a]
  by (simp add: NormalizeRadians_def)

lemma cos_NormalizeRadians [simp]: "cos (NormalizeRadians a) = cos a"
proof -
  obtain k :: int where "NormalizeRadians a = a + 2 * pi * real_of_int k"
    using NormalizeRadians_shift by blast
  then show ?thesis
    by (metis cos_add cos_int_2pin sin_int_2pin mult.commute mult.left_commute mult_1_right mult_zero_right diff_zero)
qed

lemma sin_NormalizeRadians [simp]: "sin (NormalizeRadians a) = sin a"
proof -
  obtain k :: int where "NormalizeRadians a = a + 2 * pi * real_of_int k"
    using NormalizeRadians_shift by blast
  then show ?thesis
    by (metis sin_add cos_int_2pin sin_int_2pin mult.commute mult.left_commute mult_1_right mult_zero_right add.right_neutral)
qed

lemma Atan2_polar:
  "sqrt (x * x + y * y) * cos (Atan2 y x) = x \<and> sqrt (x * x + y * y) * sin (Atan2 y x) = y"
proof (cases "y = 0")
  case True
  then show ?thesis by (simp add: Atan2_def)
next
  case y: False
  show ?thesis
  proof (cases "x = 0")
    case True
    then show ?thesis using y by (simp add: Atan2_def)
  next
    case x: False
    let ?r = "sqrt (x * x + y * y)"
    let ?q = "arctan (y / x)"
    have rpos: "0 < ?r" using x by (simp add: sum_squares_gt_zero_iff)
    have "1 + (y / x)\<^sup>2 = (x * x + y * y) / (x * x)"
      using x by (simp add: field_simps power2_eq_square)
    then have "sqrt (1 + (y / x)\<^sup>2) = ?r / \<bar>x\<bar>"
      by (simp add: real_sqrt_divide)
    then have c: "cos ?q = \<bar>x\<bar> / ?r" and s: "sin ?q = (y / x) * (\<bar>x\<bar> / ?r)"
      by (simp_all add: cos_arctan sin_arctan)
    have rc: "?r * cos ?q = \<bar>x\<bar>" using c rpos by simp
    have rs: "?r * sin ?q = (y / x) * \<bar>x\<bar>" using s rpos by simp
    show ?thesis
    proof (cases "x < 0")
      case True
      then have "?r * cos ?q = - x" and "?r * sin ?q = - y"
        using rc rs x by simp_all
      then show ?thesis using True x y
        by (simp add: Atan2_def Let_def)
    next
      case False
      then have "?r * cos ?q = x" and "?r * sin ?q = y"
        using rc rs x by simp_all
      then show ?thesis using False x y
        by (simp add: Atan2_def Let_def)
    qed
  qed
qed

lemma polar_rotate:
  fixes r a t x y :: real
  assumes "r * cos a = x" and "r * sin a = y"
  shows "r * cos (t + a) = x * cos t - y * sin t"
    and "r * sin (t + a) = x * sin t + y * cos t"
    and "r * cos (a - t) = x * cos t + y * sin t"
    and "r * sin (a - t) = y * cos t - x * sin t"
proof -
  have "r * cos (t + a) = (r * cos a) * cos t - (r * sin a) * sin t"
    by (simp add: cos_add algebra_simps)
  then show "r * cos (t + a) = x * cos t - y * sin t" using assms by simp
  have "r * sin (t + a) = (r * cos a) * sin t + (r * sin a) * cos t"
    by (simp add: sin_add algebra_simps)
  then show "r * sin (t + a) = x * sin t + y * cos t" using assms by simp
  have "r * cos (a - t) = (r * cos a) * cos t + (r * sin a) * sin t"
    by (simp add: cos_diff algebra_simps)
  then show "r * cos (a - t) = x * cos t + y * sin t" using assms by simp
  have "r * sin (a - t) = (r * sin a) * cos t - (r * cos a) * sin t"
    by (simp add: sin_diff algebra_simps)
  then show "r * sin (a - t) = y * cos t - x * sin t" using assms by simp
qed

lemma AdvancePose_eq:
  "AdvancePose p1 p2 =
     \<lparr>X = X p1 + (X p2 * cos (Theta p1) - Y p2 * sin (Theta p1)),
      Y = Y p1 + (X p2 * sin (Theta p1) + Y p2 * cos (Theta p1)),
      Theta = NormalizeRadians (Theta p1 + Theta p2)\<rparr>"
proof -
  let ?r = "sqrt (X p2 * X p2 + Y p2 * Y p2)"
  let ?a = "Atan2 (Y p2) (X p2)"
  have rc: "?r * cos ?a = X p2" and rs: "?r * sin ?a = Y p2"
    using Atan2_polar [of "X p2" "Y p2"] by simp_all
  have cx: "?r * cos (Theta p1 + ?a) = X p2 * cos (Theta p1) - Y p2 * sin (Theta p1)"
    using rc rs by (rule polar_rotate(1))
  have sx: "?r * sin (Theta p1 + ?a) = X p2 * sin (Theta p1) + Y p2 * cos (Theta p1)"
    using rc rs by (rule polar_rotate(2))
  have c1: "cos (Theta p1 + NormalizeRadians ?a) = cos (Theta p1 + ?a)"
    by (simp add: cos_add)
  have s1: "sin (Theta p1 + NormalizeRadians ?a) = sin (Theta p1 + ?a)"
    by (simp add: sin_add)
  show ?thesis
    by (simp add: AdvancePose_def ToPolarPoint_def ToPoint_def Let_def c1 s1 cx sx add.commute)
qed

lemma RelativeTo_eq:
  "RelativeTo p1 p2 =
     \<lparr>X = (X p1 - X p2) * cos (Theta p2) + (Y p1 - Y p2) * sin (Theta p2),
      Y = (Y p1 - Y p2) * cos (Theta p2) - (X p1 - X p2) * sin (Theta p2),
      Theta = NormalizeRadians (Theta p1 - Theta p2)\<rparr>"
proof -
  let ?dx = "X p1 - X p2"
  let ?dy = "Y p1 - Y p2"
  let ?r = "sqrt (?dx * ?dx + ?dy * ?dy)"
  let ?a = "Atan2 ?dy ?dx"
  have rc: "?r * cos ?a = ?dx" and rs: "?r * sin ?a = ?dy"
    using Atan2_polar [of ?dx ?dy] by simp_all
  have cx: "?r * cos (?a - Theta p2) = ?dx * cos (Theta p2) + ?dy * sin (Theta p2)"
    using rc rs by (rule polar_rotate(3))
  have sx: "?r * sin (?a - Theta p2) = ?dy * cos (Theta p2) - ?dx * sin (Theta p2)"
    using rc rs by (rule polar_rotate(4))
  have c1: "cos (NormalizeRadians ?a - Theta p2) = cos (?a - Theta p2)"
    by (simp add: cos_diff)
  have s1: "sin (NormalizeRadians ?a - Theta p2) = sin (?a - Theta p2)"
    by (simp add: sin_diff)
  show ?thesis
    by (simp add: RelativeTo_def ToPolarPoint_def ToPoint_def Let_def c1 s1 cx sx)
qed

text \<open>
  Claim C4. For all poses \<open>p\<close> and \<open>q\<close>, \<open>p.AdvancePose(q).RelativeTo(p)\<close> has the
  position of \<open>q\<close>, and its heading is the heading of \<open>q\<close> normalised: it lies in
  \<open>[-pi, pi]\<close> and differs from \<open>Theta q\<close> by a multiple of \<open>2 pi\<close>; it is
  \<open>Theta q\<close> itself when that lies strictly between \<open>-pi\<close> and \<open>pi\<close>. In exact
  arithmetic the tolerance of the claim is zero.
\<close>

theorem AdvancePose_RelativeTo:
  "X (RelativeTo (AdvancePose p q) p) = X q
   \<and> Y (RelativeTo (AdvancePose p q) p) = Y q
   \<and> - pi \<le> Theta (RelativeTo (AdvancePose p q) p)
   \<and> Theta (RelativeTo (AdvancePose p q) p) \<le> pi
   \<and> (\<exists>k::int. Theta (RelativeTo (AdvancePose p q) p) = Theta q + 2 * pi * real_of_int k)
   \<and> (Theta q < - pi \<or> pi < Theta q \<or> \<bar>Theta q\<bar> = pi
        \<or> Theta (RelativeTo (AdvancePose p q) p) = Theta q)"
proof -
  let ?h = "Theta (RelativeTo (AdvancePose p q) p)"
  have h: "?h = NormalizeRadians (NormalizeRadians (Theta p + Theta q) - Theta p)"
    by (simp add: RelativeTo_eq AdvancePose_eq)
  have sq: "X q * (cos (Theta p) * cos (Theta p)) + X q * (sin (Theta p) * sin (Theta p)) = X q"
    "Y q * (cos (Theta p) * cos (Theta p)) + Y q * (sin (Theta p) * sin (Theta p)) = Y q"
    using sin_cos_squared_add3 [of "Theta p"] by (simp_all add: distrib_left [symmetric] add.commute)
  have x: "X (RelativeTo (AdvancePose p q) p) = X q"
    using sq by (simp add: RelativeTo_eq AdvancePose_eq algebra_simps)
  have y: "Y (RelativeTo (AdvancePose p q) p) = Y q"
    using sq by (simp add: RelativeTo_eq AdvancePose_eq algebra_simps)
  have rng: "- pi \<le> ?h \<and> ?h \<le> pi"
    unfolding h by (rule NormalizeRadians_range)
  obtain k1 :: int where k1: "NormalizeRadians (Theta p + Theta q) = Theta p + Theta q + 2 * pi * real_of_int k1"
    using NormalizeRadians_shift by blast
  obtain k2 :: int where k2: "?h = NormalizeRadians (Theta p + Theta q) - Theta p + 2 * pi * real_of_int k2"
    unfolding h using NormalizeRadians_shift by blast
  have k: "?h = Theta q + 2 * pi * real_of_int (k1 + k2)"
    using k1 k2 by (simp add: algebra_simps)
  have exact: "?h = Theta q" if lo: "- pi < Theta q" and hi: "Theta q < pi"
  proof -
    have "(2 * pi) * real_of_int (k1 + k2) < (2 * pi) * 1" using k rng hi lo by linarith
    then have "real_of_int (k1 + k2) < 1"
      by (rule mult_left_less_imp_less) simp
    then have a: "k1 + k2 < 1" by linarith
    have "(2 * pi) * (- 1) < (2 * pi) * real_of_int (k1 + k2)" using k rng hi lo by linarith
    then have "- 1 < real_of_int (k1 + k2)"
      by (rule mult_left_less_imp_less) simp
    then have b: "- 1 < k1 + k2" by linarith
    from a b have "k1 + k2 = 0" by linarith
    then show ?thesis using k by simp
  qed
  have last: "Theta q < - pi \<or> pi < Theta q \<or> \<bar>Theta q\<bar> = pi \<or> ?h = Theta q"
    using exact by (cases "- pi < Theta q \<and> Theta q < pi") auto
  from x y rng k last show ?thesis by blast
qed

section \<open>The microloop track\<close>

lemma NormalizeRadians_0 [simp]: "NormalizeRadians 0 = 0"
  by (rule NormalizeRadians_id) simp_all

lemma NormalizeRadians_pi_half [simp]: "NormalizeRadians (pi / 2) = pi / 2"
  by (rule NormalizeRadians_id) simp_all

lemma NormalizeRadians_pi [simp]: "NormalizeRadians pi = pi"
  by (rule NormalizeRadians_id) simp_all

lemma NormalizeRadians_3pi_half: "NormalizeRadians (3 * pi / 2) = - (pi / 2)"
proof -
  have c: "pi < 3 * pi / 2" using pi_gt_zero by linarith
  have up: "NormalizeRadians_up (3 * pi / 2) = 3 * pi / 2"
    using NormalizeRadians_up_props [of "3 * pi / 2"] c by linarith
  have e: "3 * pi / 2 - 2 * pi = - (pi / 2)" by simp
  have "NormalizeRadians_down (3 * pi / 2) = NormalizeRadians_down (3 * pi / 2 - 2 * pi)"
    using c by (subst NormalizeRadians_down.simps) (simp only: if_True)
  also have "\<dots> = NormalizeRadians_down (- (pi / 2))"
    by (simp only: e)
  also have "\<dots> = - (pi / 2)"
    using NormalizeRadians_down_props [of "- (pi / 2)"] pi_gt_zero by linarith
  finally show ?thesis by (simp only: NormalizeRadians_def up)
qed

lemma DeltaPose_straight: "DeltaPose \<lparr>cenLen = l, dAngle = 0\<rparr> = \<lparr>X = l, Y = 0, Theta = 0\<rparr>"
  by (simp add: DeltaPose_def IsStraight_def)

lemma DeltaPose_left: "DeltaPose \<lparr>cenLen = TrackLenModCurve, dAngle = pi / 2\<rparr>
   = \<lparr>X = 28 / 100, Y = 28 / 100, Theta = pi / 2\<rparr>"
  by (simp add: DeltaPose_def IsStraight_def CurveRadius_def TrackLenModCurve_def
      TrackLenModStraight_def ToPoint_def Let_def)


lemma microloop_step1: "AdvancePose \<lparr>X = 0, Y = 0, Theta = 0\<rparr> \<lparr>X = 11 / 50, Y = 0, Theta = 0\<rparr> = \<lparr>X = 11 / 50, Y = 0, Theta = 0\<rparr>"
  by (simp add: AdvancePose_eq)
lemma microloop_step2: "AdvancePose \<lparr>X = 11 / 50, Y = 0, Theta = 0\<rparr> \<lparr>X = 7 / 25, Y = 7 / 25, Theta = pi / 2\<rparr> = \<lparr>X = 1 / 2, Y = 7 / 25, Theta = pi / 2\<rparr>"
  by (simp add: AdvancePose_eq)
lemma microloop_step3: "AdvancePose \<lparr>X = 1 / 2, Y = 7 / 25, Theta = pi / 2\<rparr> \<lparr>X = 7 / 25, Y = 7 / 25, Theta = pi / 2\<rparr> = \<lparr>X = 11 / 50, Y = 14 / 25, Theta = pi\<rparr>"
  by (simp add: AdvancePose_eq)
lemma microloop_step4: "AdvancePose \<lparr>X = 11 / 50, Y = 14 / 25, Theta = pi\<rparr> \<lparr>X = 14 / 25, Y = 0, Theta = 0\<rparr> = \<lparr>X = - (17 / 50), Y = 14 / 25, Theta = pi\<rparr>"
  by (simp add: AdvancePose_eq)
lemma microloop_step5: "AdvancePose \<lparr>X = - (17 / 50), Y = 14 / 25, Theta = pi\<rparr> \<lparr>X = 7 / 25, Y = 7 / 25, Theta = pi / 2\<rparr> = \<lparr>X = - (31 / 50), Y = 7 / 25, Theta = - (pi / 2)\<rparr>"
proof -
  have a: "pi + pi / 2 = 3 * pi / 2" by simp
  show ?thesis by (simp add: AdvancePose_eq a NormalizeRadians_3pi_half del: add_divide_eq_if_simps)
qed
lemma microloop_step6: "AdvancePose \<lparr>X = - (31 / 50), Y = 7 / 25, Theta = - (pi / 2)\<rparr> \<lparr>X = 7 / 25, Y = 7 / 25, Theta = pi / 2\<rparr> = \<lparr>X = - (17 / 50), Y = 0, Theta = 0\<rparr>"
  by (simp add: AdvancePose_eq)
lemma microloop_step7: "AdvancePose \<lparr>X = - (17 / 50), Y = 0, Theta = 0\<rparr> \<lparr>X = 17 / 50, Y = 0, Theta = 0\<rparr> = \<lparr>X = 0, Y = 0, Theta = 0\<rparr>"
  by (simp add: AdvancePose_eq)
lemma microloop_entryPoses:
  "entryPosesFrom \<lparr>X = 0, Y = 0, Theta = 0\<rparr> microPieces =
     [\<lparr>X = 0, Y = 0, Theta = 0\<rparr>,
      \<lparr>X = 22 / 100, Y = 0, Theta = 0\<rparr>,
      \<lparr>X = 50 / 100, Y = 28 / 100, Theta = pi / 2\<rparr>,
      \<lparr>X = 22 / 100, Y = 56 / 100, Theta = pi\<rparr>,
      \<lparr>X = - (34 / 100), Y = 56 / 100, Theta = pi\<rparr>,
      \<lparr>X = - (62 / 100), Y = 28 / 100, Theta = - (pi / 2)\<rparr>,
      \<lparr>X = - (34 / 100), Y = 0, Theta = 0\<rparr>,
      \<lparr>X = 0, Y = 0, Theta = 0\<rparr>]"
  by (simp add: microPieces_def DeltaPose_straight DeltaPose_left
      TrackLenModStartShort_def TrackLenModStartLong_def TrackLenModStraight_def
      microloop_step1 microloop_step2 microloop_step3 microloop_step4 microloop_step5 microloop_step6 microloop_step7)

lemma microloop_NewTrack: "NewTrack (3 / 10) 0 microPieces = (Some microloop, None)"
proof -
  have "\<exists>t. NewTrack (3 / 10) 0 microPieces = (Some t, None)"
    by (simp add: NewTrack_def Let_def microloop_entryPoses RadiansAreNear_def
      MetersAreNear_def isNear_def) (simp add: microPieces_def)
  then show ?thesis by (auto simp: microloop_def)
qed

section \<open>Termination and range of the track queries\<close>

lemma NormalizeDofs_up_total:
  assumes l: "0 < l"
  shows "\<exists>y. NormalizeDofs_up l d = Some y \<and> 0 \<le> y \<and> (0 \<le> d \<longrightarrow> y = d) \<and> (d < 0 \<longrightarrow> y < l)"
proof (induction d rule: measure_induct_rule [where f = "\<lambda>d. nat \<lceil>- d / l\<rceil>"])
  case (less d)
  show ?case
  proof (cases "d < 0")
    case False
    then show ?thesis by (subst NormalizeDofs_up.simps) simp
  next
    case True
    have eq: "- (d + l) / l = - d / l - 1" using l by (simp add: field_simps)
    have "0 < - d / l" using True l by (simp add: divide_neg_pos)
    then have "1 \<le> \<lceil>- d / l\<rceil>" by linarith
    then have "nat \<lceil>- (d + l) / l\<rceil> < nat \<lceil>- d / l\<rceil>" unfolding eq by simp
    from less.IH [OF this] obtain y where
      y: "NormalizeDofs_up l (d + l) = Some y" "0 \<le> y"
         "0 \<le> d + l \<longrightarrow> y = d + l" "d + l < 0 \<longrightarrow> y < l"
      by blast
    have "NormalizeDofs_up l d = Some y"
      using True y(1) by (subst NormalizeDofs_up.simps) simp
    moreover have "y < l" using y(3,4) True by (cases "0 \<le> d + l") auto
    ultimately show ?thesis using y(2) True by simp
  qed
qed

lemma NormalizeDofs_down_total:
  assumes l: "0 < l"
  shows "0 \<le> d \<Longrightarrow> \<exists>y. NormalizeDofs_down l d = Some y \<and> 0 \<le> y \<and> y < l"
proof (induction d rule: measure_induct_rule [where f = "\<lambda>d. nat \<lfloor>d / l\<rfloor>"])
  case (less d)
  show ?case
  proof (cases "l \<le> d")
    case False
    then show ?thesis using less.prems by (subst NormalizeDofs_down.simps) simp
  next
    case True
    have eq: "(d - l) / l = d / l - 1" using l by (simp add: field_simps)
    have "1 \<le> d / l" using True l by (simp add: le_divide_eq)
    then have "1 \<le> \<lfloor>d / l\<rfloor>" by linarith
    then have "nat \<lfloor>(d - l) / l\<rfloor> < nat \<lfloor>d / l\<rfloor>" unfolding eq by simp
    moreover have "0 \<le> d - l" using True by simp
    ultimately obtain y where
      y: "NormalizeDofs_down l (d - l) = Some y" "0 \<le> y" "y < l"
      using less.IH by blast
    have "NormalizeDofs_down l d = Some y"
      using True y(1) by (subst NormalizeDofs_down.simps) simp
    then show ?thesis using y(2,3) by simp
  qed
qed

lemma NormalizeDofs_total:
  assumes "Track_CenLen t = Inr l" and "0 < l"
  shows "\<exists>y. NormalizeDofs t d = Some (Inr y) \<and> 0 \<le> y \<and> y < l"
proof -
  obtain y1 where y1: "NormalizeDofs_up l d = Some y1" "0 \<le> y1"
    using NormalizeDofs_up_total [OF assms(2), of d] by blast
  obtain y2 where y2: "NormalizeDofs_down l y1 = Some y2" "0 \<le> y2" "y2 < l"
    using NormalizeDofs_down_total [OF assms(2) y1(2)] by blast
  show ?thesis using assms(1) y1 y2 by (simp add: NormalizeDofs_def)
qed

lemma length_entryDofsFrom: "length (entryDofsFrom d ps) = length ps + 1"
  by (induction ps arbitrary: d) simp_all

lemma length_entryPosesFrom: "length (entryPosesFrom e ps) = length ps + 1"
  by (induction ps arbitrary: e) simp_all

lemma rpiSearch_range:
  "0 \<le> r \<Longrightarrow> r < int (length (entryDofs t))
     \<Longrightarrow> \<exists>r'. rpiSearch t d r = Inr r' \<and> 0 \<le> r' \<and> r' \<le> r"
proof (induction t d r rule: rpiSearch.induct)
  case (1 t dofs rpi)
  show ?case
  proof (cases "rpi > 0")
    case False
    then show ?thesis using "1.prems" by (subst rpiSearch.simps) simp
  next
    case True
    have at: "sliceAt (entryDofs t) rpi = Inr (entryDofs t ! nat rpi)"
      using "1.prems" by (simp add: sliceAt_def)
    show ?thesis
    proof (cases "entryDofs t ! nat rpi > dofs")
      case False
      then show ?thesis using True at "1.prems" by (subst rpiSearch.simps) simp
    next
      case gt: True
      have "\<exists>r'. rpiSearch t dofs (rpi - 1) = Inr r' \<and> 0 \<le> r' \<and> r' \<le> rpi - 1"
        using "1.IH" [OF True at gt] True "1.prems" by simp
      then obtain r' where "rpiSearch t dofs (rpi - 1) = Inr r'" "0 \<le> r'" "r' \<le> rpi - 1"
        by blast
      then show ?thesis using True at gt by (subst rpiSearch.simps) simp
    qed
  qed
qed

lemma RpiAndRpDofs_total:
  assumes nt: "NewTrack w mc ps = (Some t, e)"
    and cl: "Track_CenLen t = Inr l"
    and d: "0 \<le> d" "d \<le> l"
  shows "\<exists>rpi rd. RpiAndRpDofs t d = Inr (rpi, rd) \<and> 0 \<le> rpi \<and> rpi < int (length ps)
           \<and> Rp t rpi = Inr (ps ! nat rpi)"
proof -
  have p: "pieces t = ps" and ed: "entryDofs t = entryDofsFrom 0 ps"
    using NewTrack_fields [OF nt] by simp_all
  have n: "4 \<le> length ps" using nt by (auto simp: NewTrack_def Let_def split: if_splits)
  have len: "length (entryDofs t) = length ps + 1" by (simp add: ed length_entryDofsFrom)
  have av: "assertValidDofs t d = Inr ()"
    using cl d by (simp add: assertValidDofs_def bindF_def)
  have s0: "0 \<le> int (length (pieces t)) - 1" unfolding p using n by (cases ps) auto
  have s1: "int (length (pieces t)) - 1 < int (length (entryDofs t))" using len p by simp
  obtain r where r: "rpiSearch t d (int (length (pieces t)) - 1) = Inr r" "0 \<le> r"
      "r \<le> int (length (pieces t)) - 1"
    using rpiSearch_range [OF s0 s1, of d] by blast
  have a1: "sliceAt (entryDofs t) r = Inr (entryDofs t ! nat r)"
    using r p len by (simp add: sliceAt_def)
  have a2: "sliceAt (pieces t) r = Inr (ps ! nat r)"
    using r p by (simp add: sliceAt_def)
  have "Rp t r = Inr (ps ! nat r)"
    using r p a2 by (simp add: Rp_def assertValidRpi_def bindF_def)
  moreover have "\<exists>rd. RpiAndRpDofs t d = Inr (r, rd)"
    by (simp add: RpiAndRpDofs_def av r(1) a1 a2 bindF_def Let_def)
  ultimately show ?thesis using r p by auto
qed

section \<open>The microloop as a track, and one step of the simulator\<close>

lemma microloop_NewModularTrack:
  "NewModularTrack (3 / 10) 0 ''SLLSLL'' = Inr (Some microloop, None)"
proof -
  have pos: "\<not> pi \<le> 0" using pi_gt_zero by linarith
  have "NewModularTrack (3 / 10) 0 ''SLLSLL'' = Inr (NewTrack (3 / 10) 0 microPieces)"
    by (simp add: NewModularTrack_def NewRoadPiece_def bindF_def microPieces_def
      TrackLenModStartShort_def TrackLenModStartLong_def TrackLenModStraight_def
      TrackLenModCurve_def Radians90DegreeTurnL_def Radians90DegreeTurnR_def pos)
  then show ?thesis by (simp add: microloop_NewTrack)
qed

lemma microloop_pieces: "pieces microloop = microPieces"
  using NewTrack_fields(1) [OF microloop_NewTrack] .

lemma microloop_MaxCofs: "MaxCofs microloop = 3 / 20"
  using NewTrack_fields(4) [OF microloop_NewTrack] by (simp add: MaxCofs_def)

lemma microloop_entryDofs:
  "entryDofs microloop =
     [0, 11 / 50, 11 / 50 + 7 * pi / 50, 11 / 50 + 14 * pi / 50, 39 / 50 + 14 * pi / 50,
      39 / 50 + 21 * pi / 50, 39 / 50 + 28 * pi / 50, 28 / 25 + 14 * pi / 25]"
proof -
  have "entryDofs microloop = entryDofsFrom 0 microPieces"
    using NewTrack_fields(2) [OF microloop_NewTrack] .
  then show ?thesis
    by (simp add: microPieces_def RoadPiece_Len_def TrackLenModStartShort_def
        TrackLenModStartLong_def TrackLenModStraight_def TrackLenModCurve_def)
qed

lemma microloop_CenLen: "Track_CenLen microloop = Inr microLen"
  by (simp add: Track_CenLen_def microloop_pieces microloop_entryDofs microPieces_def
      sliceAt_def microLen_def)

lemma microLen_pos: "0 < microLen"
  using pi_gt_zero unfolding microLen_def by linarith

lemma microloop_RpiAndRpDofs_0:
  "RpiAndRpDofs microloop 0 = Inr (0, 0)"
proof -
  have p: "(0::real) < 11 / 50 + 7 * pi / 50" "(0::real) < 11 / 50 + 14 * pi / 50"
    "(0::real) < 39 / 50 + 14 * pi / 50" "(0::real) < 39 / 50 + 21 * pi / 50"
    "(0::real) < 39 / 50 + 28 * pi / 50" "(0::real) \<le> microLen"
    using pi_gt_zero unfolding microLen_def by linarith+
  have s: "rpiSearch microloop 0 6 = Inr 0"
    using p by (simp add: rpiSearch.simps microloop_entryDofs sliceAt_def)
  show ?thesis
    using p(6) by (simp add: RpiAndRpDofs_def assertValidDofs_def microloop_CenLen bindF_def
        microloop_pieces microPieces_def s sliceAt_def microloop_entryDofs
        RoadPiece_CenLen_def TrackLenModStartShort_def)
qed

lemma microloop_RpiAndRpDofs_curve:
  "RpiAndRpDofs microloop (3 / 10) = Inr (1, 2 / 25)"
proof -
  have p: "(3 / 10::real) < 11 / 50 + 7 * pi / 50" "(3 / 10::real) < 11 / 50 + 14 * pi / 50"
    "(3 / 10::real) < 39 / 50 + 14 * pi / 50" "(3 / 10::real) < 39 / 50 + 21 * pi / 50"
    "(3 / 10::real) < 39 / 50 + 28 * pi / 50" "(3 / 10::real) \<le> microLen"
    "(2 / 25 ::real) \<le> 7 * pi / 50"
    using pi_ge_two unfolding microLen_def by linarith+
  have s: "rpiSearch microloop (3 / 10) 6 = Inr 1"
    using p by (simp add: rpiSearch.simps microloop_entryDofs sliceAt_def)
  show ?thesis
    using p(6,7) by (simp add: RpiAndRpDofs_def assertValidDofs_def microloop_CenLen bindF_def
        microloop_pieces microPieces_def s sliceAt_def microloop_entryDofs
        RoadPiece_CenLen_def TrackLenModCurve_def TrackLenModStraight_def)
qed

lemma microloop_Rp_0: "Rp microloop 0 = Inr \<lparr>cenLen = 22 / 100, dAngle = 0\<rparr>"
  by (simp add: Rp_def assertValidRpi_def bindF_def microloop_pieces microPieces_def
      sliceAt_def TrackLenModStartShort_def)

lemma microloop_Rp_1: "Rp microloop 1 = Inr \<lparr>cenLen = TrackLenModCurve, dAngle = pi / 2\<rparr>"
  by (simp add: Rp_def assertValidRpi_def bindF_def microloop_pieces microPieces_def
      sliceAt_def)

lemma CurveRadius_left: "CurveRadius \<lparr>cenLen = TrackLenModCurve, dAngle = pi / 2\<rparr> c = 7 / 25 - c"
  by (simp add: CurveRadius_def IsStraight_def TrackLenModCurve_def TrackLenModStraight_def)

lemma tickClampCofs_fields:
  "curPose (tickClampCofs trk veh) = curPose veh"
  "cmdCofs (tickClampCofs trk veh) = (if cmdCofs veh < - MaxCofs trk then - MaxCofs trk
                               else if cmdCofs veh > MaxCofs trk then MaxCofs trk
                               else cmdCofs veh)"
  by (simp_all add: tickClampCofs_def)

lemma tickMove_fields:
  "cmdCofs (tickMove fw s dd veh) = cmdCofs veh"
  by (simp add: tickMove_def)

lemma tickFinish_fields:
  "Dofs (curPose (tickFinish nd dc hv s df ad veh)) = nd"
  "cmdCofs (tickFinish nd dc hv s df ad veh) = cmdCofs veh"
  by (simp_all add: tickFinish_def Let_def)

lemma IsFacingTrackwise_valid:
  "\<bar>DAngle (curPose v)\<bar> \<le> pi \<Longrightarrow> IsFacingTrackwise v = Inr (\<bar>DAngle (curPose v)\<bar> \<le> pi / 2)"
  by (auto simp: IsFacingTrackwise_def Let_def)

lemma tickVehicle_result:
  assumes r: "RpiAndRpDofs trk (Dofs (curPose veh)) = Inr (rpi, rd)"
    and rp: "Rp trk rpi = Inr rp"
    and cr: "CurveRadius rp 0 = 0 \<or> CurveRadius rp (Cofs (curPose veh)) \<noteq> 0"
    and da: "\<bar>DAngle (curPose veh)\<bar> \<le> pi"
    and cl: "Track_CenLen trk = Inr l" and l: "0 < l"
  shows "\<exists>veh'. tickVehicle dt trk veh = Some (Inr veh')
           \<and> 0 \<le> Dofs (curPose veh') \<and> Dofs (curPose veh') < l
           \<and> cmdCofs veh' = (if cmdCofs veh < - MaxCofs trk then - MaxCofs trk
                               else if cmdCofs veh > MaxCofs trk then MaxCofs trk
                               else cmdCofs veh)"
proof -
  define fdt where "fdt = real (unat dt) * (1 / 1000000000)"
  define s where "s = tickDspd fdt veh"
  define df where "df = tickDeltaFwd fdt veh s"
  have "\<exists>dd. tickDeltaDofs rp veh df = FinVal dd"
    using cr by (auto simp: tickDeltaDofs_def CurTrackPose_def)
  then obtain dd where dd: "tickDeltaDofs rp veh df = FinVal dd" by blast
  define v1 where "v1 = tickClampCofs trk veh"
  obtain hv ad dc where tc: "tickCofs fdt v1 = (hv, ad, dc)"
    by (cases "tickCofs fdt v1") auto
  define v2 where "v2 = v1\<lparr>desDspd := s, desCofs := dc\<rparr>"
  have p2: "curPose v2 = curPose veh"
    by (simp add: v2_def v1_def tickClampCofs_fields)
  have fw: "IsFacingTrackwise v2 = Inr (\<bar>DAngle (curPose veh)\<bar> \<le> pi / 2)"
    using IsFacingTrackwise_valid [of v2] da p2 by simp
  define v3 where "v3 = tickMove (\<bar>DAngle (curPose veh)\<bar> \<le> pi / 2) s dd v2"
  obtain nd where nd: "NormalizeDofs trk (Dofs (curPose v3)) = Some (Inr nd)" "0 \<le> nd" "nd < l"
    using NormalizeDofs_total [OF cl l] by blast
  have "tickVehicle dt trk veh = Some (Inr (tickFinish nd dc hv s df ad v3))"
    unfolding tickVehicle_def CurTrackPose_def Let_def
    by (simp only: r rp sum.case prod.case option.case fval.case fdt_def [symmetric]
        s_def [symmetric] df_def [symmetric] dd v1_def [symmetric] tc v2_def [symmetric] fw
        v3_def [symmetric] nd(1))
  moreover have "cmdCofs (tickFinish nd dc hv s df ad v3) = cmdCofs v1"
    by (simp add: tickFinish_fields v3_def tickMove_fields v2_def)
  ultimately show ?thesis
    using nd(2,3) by (simp add: tickFinish_fields v1_def tickClampCofs_fields)
qed

section \<open>A tick from rest, and regions as long as the track\<close>

lemma NormalizeDofs_id:
  assumes "Track_CenLen t = Inr l" and "0 \<le> d" and "d < l"
  shows "NormalizeDofs t d = Some (Inr d)"
proof -
  have u: "NormalizeDofs_up l d = Some d"
    using assms(2) by (subst NormalizeDofs_up.simps) simp
  have dn: "NormalizeDofs_down l d = Some d"
    using assms(3) by (subst NormalizeDofs_down.simps) simp
  show ?thesis by (simp add: NormalizeDofs_def assms(1) u dn)
qed


text \<open>
  Claim C1. A vehicle at rest is commanded to 1 m/s with 2 m/s^2, and one tick of
  0.01 s runs on the straight start piece of the microloop. The speed after the tick is
  0.02 m/s, as the claim says. The distance offset however advances by 0.0003 m, not by
  the 0.0001 m of \<open>v * dt + a * dt^2 / 2\<close> with the speed \<open>v = 0\<close> at the start of
  the tick: \<open>Tick\<close> first ramps the speed and then uses the new speed 0.02 in the
  formula, \<open>0.02 * 0.01 + (2 / 2) * 0.01^2\<close>. The comment in the code calls the formula
  the standard one for movement under constant acceleration, which from rest gives
  0.0001 m.
\<close>

theorem Tick_from_rest:
  "Tick simDeltaT microloop [vehRest]
     = Some (Inr [vehRest\<lparr>desDspd := 2 / 100, curVel := \<lparr>D = 2 / 100, C = 0\<rparr>,
                          curPose := \<lparr>Dofs = 3 / 10000, Cofs = 0, DAngle = 0\<rparr>,
                          odom := 3 / 10000\<rparr>])"
proof -
  have sq: "sqrt (9 / 100000000) = 3 / 10000"
    by (rule real_sqrt_unique) (simp_all add: power2_eq_square)
  have lt: "3 / 10000 < microLen" using pi_gt_zero unfolding microLen_def by linarith
  have fdt: "real (unat simDeltaT) * (1 / 1000000000) = 1 / 100"
    by (simp add: simDeltaT_def)
  have s: "tickDspd (1 / 100) vehRest = 1 / 50"
    by (simp add: tickDspd_def vehRest_def)
  have df: "tickDeltaFwd (1 / 100) vehRest (1 / 50) = 3 / 10000"
    by (simp add: tickDeltaFwd_def vehRest_def)
  have dd: "tickDeltaDofs \<lparr>cenLen = 22 / 100, dAngle = 0\<rparr> vehRest (3 / 10000)
              = FinVal (3 / 10000)"
    by (simp add: tickDeltaDofs_def CurveRadius_def IsStraight_def)
  have cc: "tickClampCofs microloop vehRest = vehRest"
    by (simp add: tickClampCofs_def microloop_MaxCofs vehRest_def)
  have tc: "tickCofs (1 / 100) vehRest = (0, 0, 0)"
    by (simp add: tickCofs_def vehRest_def)
  have fw: "IsFacingTrackwise (vehRest\<lparr>desDspd := 1 / 50, desCofs := 0\<rparr>) = Inr True"
    by (simp add: IsFacingTrackwise_def vehRest_def)
  have mv: "Dofs (curPose (tickMove True (1 / 50) (3 / 10000)
                    (vehRest\<lparr>desDspd := 1 / 50, desCofs := 0\<rparr>))) = 3 / 10000"
    by (simp add: tickMove_def vehRest_def)
  have nd: "NormalizeDofs microloop (3 / 10000) = Some (Inr (3 / 10000))"
    using NormalizeDofs_id [OF microloop_CenLen _ lt] by simp
  have fin: "tickFinish (3 / 10000) 0 0 (1 / 50) (3 / 10000) 0
               (tickMove True (1 / 50) (3 / 10000) (vehRest\<lparr>desDspd := 1 / 50, desCofs := 0\<rparr>))
             = vehRest\<lparr>desDspd := 2 / 100, curVel := \<lparr>D = 2 / 100, C = 0\<rparr>,
                          curPose := \<lparr>Dofs = 3 / 10000, Cofs = 0, DAngle = 0\<rparr>,
                          odom := 3 / 10000\<rparr>"
    by (simp add: tickFinish_def tickMove_def vehRest_def Atan2_def sq)
  have r: "RpiAndRpDofs microloop (Dofs (curPose vehRest)) = Inr (0, 0)"
    by (simp add: vehRest_def microloop_RpiAndRpDofs_0)
  have "tickVehicle simDeltaT microloop vehRest
     = Some (Inr (vehRest\<lparr>desDspd := 2 / 100, curVel := \<lparr>D = 2 / 100, C = 0\<rparr>,
                          curPose := \<lparr>Dofs = 3 / 10000, Cofs = 0, DAngle = 0\<rparr>,
                          odom := 3 / 10000\<rparr>))"
    unfolding tickVehicle_def CurTrackPose_def Let_def
    by (simp only: r sum.case prod.case option.case fval.case microloop_Rp_0 fdt s df dd cc tc
        fw mv nd fin)
  then show ?thesis by simp
qed

text \<open>
  Claim C3. A region whose length is at least the centre length of the track should
  contain every point whose centre offset lies in \<open>[c1.Cofs, c1.Cofs + width)\<close>,
  whatever its distance offset: the comment of \<open>Region\<close> says that such a region covers
  the whole track, and \<open>TestTrackRegionsFullLength\<close> expects it. The code decides the
  distance axis by \<open>p.Dofs \<ge> c1.Dofs\<close> or \<open>p.Dofs < NormalizeDofs (c1.Dofs + len)\<close>, and
  the normalised end wraps below \<open>c1.Dofs\<close> again once \<open>c1.Dofs + len\<close> reaches twice
  the track length. On the microloop of length \<open>L\<close>, the region that \<open>NewRegion\<close>
  makes from the corner \<open>(L / 2, 0)\<close> with length \<open>3 L / 2\<close> and width 1 does not
  contain the point \<open>(L / 4, 0.5)\<close>, whose centre offset is inside the lateral range.
\<close>

theorem ContainsPoint_full_length_fails:
  "NewRegion microloop \<lparr>Dofs = microLen / 2, Cofs = 0\<rparr> (3 * microLen / 2) 1
     = Inr \<lparr>c1 = \<lparr>Dofs = microLen / 2, Cofs = 0\<rparr>, rlen = 3 * microLen / 2, rwidth = 1,
            rtrack = microloop\<rparr>
   \<and> Track_CenLen microloop = Inr microLen
   \<and> 3 * microLen / 2 \<ge> microLen
   \<and> ContainsPoint \<lparr>c1 = \<lparr>Dofs = microLen / 2, Cofs = 0\<rparr>, rlen = 3 * microLen / 2,
                      rwidth = 1, rtrack = microloop\<rparr>
        \<lparr>Dofs = microLen / 4, Cofs = 1 / 2\<rparr> = Some (Inr False)"
proof -
  have l: "0 < microLen" by (rule microLen_pos)
  have n1: "NormalizeDofs microloop (microLen / 4) = Some (Inr (microLen / 4))"
    using l by (intro NormalizeDofs_id [OF microloop_CenLen]) simp_all
  have d2: "NormalizeDofs_down microLen (2 * microLen) = NormalizeDofs_down microLen microLen"
    using l by (subst NormalizeDofs_down.simps) simp
  have d1: "NormalizeDofs_down microLen microLen = NormalizeDofs_down microLen 0"
    using l by (subst NormalizeDofs_down.simps) simp
  have d0: "NormalizeDofs_down microLen 0 = Some 0"
    using l by (subst NormalizeDofs_down.simps) simp
  have u: "NormalizeDofs_up microLen (2 * microLen) = Some (2 * microLen)"
    using l by (subst NormalizeDofs_up.simps) simp
  have n2: "NormalizeDofs microloop (2 * microLen) = Some (Inr 0)"
    by (simp add: NormalizeDofs_def microloop_CenLen u d2 d1 d0)
  have cf: "CrossesFinishLine \<lparr>c1 = \<lparr>Dofs = microLen / 2, Cofs = 0\<rparr>, rlen = 3 * microLen / 2,
                      rwidth = 1, rtrack = microloop\<rparr> = Inr True"
    using l by (simp add: CrossesFinishLine_def bindF_def microloop_CenLen)
  have cp: "ContainsPoint \<lparr>c1 = \<lparr>Dofs = microLen / 2, Cofs = 0\<rparr>, rlen = 3 * microLen / 2,
                      rwidth = 1, rtrack = microloop\<rparr>
        \<lparr>Dofs = microLen / 4, Cofs = 1 / 2\<rparr> = Some (Inr False)"
    using l by (simp add: ContainsPoint_def cf n1 n2)
  have nr: "NewRegion microloop \<lparr>Dofs = microLen / 2, Cofs = 0\<rparr> (3 * microLen / 2) 1
     = Inr \<lparr>c1 = \<lparr>Dofs = microLen / 2, Cofs = 0\<rparr>, rlen = 3 * microLen / 2, rwidth = 1,
            rtrack = microloop\<rparr>"
    using l by (simp add: NewRegion_def bindF_def microloop_CenLen)
  from nr cp microloop_CenLen l show ?thesis by simp
qed

section \<open>The distance offset across a tick, and the default maximum centre offset\<close>

lemma NewTrack_CenLen:
  assumes "NewTrack w mc ps = (Some t, e)"
  shows "Track_CenLen t = Inr (entryDofsFrom 0 ps ! length ps)"
  using NewTrack_fields(1,2) [OF assms]
  by (simp add: Track_CenLen_def sliceAt_def length_entryDofsFrom)

lemma IsFacingTrackwise_curPose:
  "curPose v = curPose v' \<Longrightarrow> IsFacingTrackwise v = IsFacingTrackwise v'"
  by (simp add: IsFacingTrackwise_def)

lemma tickVehicle_cmdCofs:
  assumes "tickVehicle dt trk veh = Some (Inr veh')"
  shows "cmdCofs veh' = (if cmdCofs veh < - MaxCofs trk then - MaxCofs trk
                          else if cmdCofs veh > MaxCofs trk then MaxCofs trk
                          else cmdCofs veh)"
proof -
  have "cmdCofs veh' = cmdCofs (tickClampCofs trk veh)"
    using assms unfolding tickVehicle_def Let_def
    by (auto simp: tickFinish_fields tickMove_fields
        split: sum.splits option.splits prod.splits fval.splits)
  then show ?thesis by (simp add: tickClampCofs_fields)
qed

text \<open>
  Claim C9. \<open>Tick\<close> itself normalises the distance offset after it has added or
  subtracted the increment, and the comment of \<open>NormalizeDofs\<close> says that the result
  is in \<open>[0, track.CenLen())\<close>. On a curved piece the increment is scaled by the
  quotient of the curve radius at the road centre and the curve radius at the centre
  offset of the vehicle; the code tests that the first is not zero and does not test the
  second. A vehicle that \<open>Reposition\<close> has put into the first curve of the microloop
  (distance offset 0.3, in range) at the centre offset 0.28, the radius of that curve,
  has the second radius zero. Its forward increment in a tick of 0.01 s is
  \<open>0.05 * 0.01^2\<close>, not zero, so the scaled increment is an infinity,
  \<open>NormalizeDofs\<close> loops on it for ever, and the tick does not return: there is no
  distance offset after the tick.
\<close>

theorem Tick_at_curve_centre_never_returns:
  "Track_CenLen microloop = Inr microLen
   \<and> bindF (NewVehicle ''gs'' microLen)
        (\<lambda>v. Inr (Reposition v \<lparr>Dofs = 3 / 10, Cofs = 28 / 100, DAngle = 0\<rparr>)) = Inr vehCentre
   \<and> 0 \<le> Dofs (curPose vehCentre) \<and> Dofs (curPose vehCentre) < microLen
   \<and> \<bar>DAngle (curPose vehCentre)\<bar> \<le> pi
   \<and> RpiAndRpDofs microloop (Dofs (curPose vehCentre)) = Inr (1, 2 / 25)
   \<and> Rp microloop 1 = Inr \<lparr>cenLen = TrackLenModCurve, dAngle = pi / 2\<rparr>
   \<and> CurveRadius \<lparr>cenLen = TrackLenModCurve, dAngle = pi / 2\<rparr> 0 = 28 / 100
   \<and> CurveRadius \<lparr>cenLen = TrackLenModCurve, dAngle = pi / 2\<rparr> (Cofs (curPose vehCentre)) = 0
   \<and> Tick simDeltaT microloop [vehCentre] = None"
proof -
  have "3 / 10 < microLen" using pi_gt_zero unfolding microLen_def by linarith
  then have rng: "0 \<le> Dofs (curPose vehCentre) \<and> Dofs (curPose vehCentre) < microLen"
    by (simp add: vehCentre_def)
  have da: "\<bar>DAngle (curPose vehCentre)\<bar> \<le> pi" by (simp add: vehCentre_def)
  have rp: "bindF (NewVehicle ''gs'' microLen)
              (\<lambda>v. Inr (Reposition v \<lparr>Dofs = 3 / 10, Cofs = 28 / 100, DAngle = 0\<rparr>))
            = Inr vehCentre"
    by (simp add: NewVehicle_def vehTypeInfoTable_def bindF_def Reposition_def vehCentre_def)
  have r: "RpiAndRpDofs microloop (Dofs (curPose vehCentre)) = Inr (1, 2 / 25)"
    by (simp add: vehCentre_def microloop_RpiAndRpDofs_curve)
  have c0: "CurveRadius \<lparr>cenLen = TrackLenModCurve, dAngle = pi / 2\<rparr> 0 = 28 / 100"
    by (simp add: CurveRadius_left)
  have c1: "CurveRadius \<lparr>cenLen = TrackLenModCurve, dAngle = pi / 2\<rparr> (Cofs (curPose vehCentre)) = 0"
    by (simp add: CurveRadius_left vehCentre_def)
  have fdt: "real (unat simDeltaT) * (1 / 1000000000) = 1 / 100"
    by (simp add: simDeltaT_def)
  have s: "tickDspd (1 / 100) vehCentre = 0"
    by (simp add: tickDspd_def vehCentre_def)
  have df: "tickDeltaFwd (1 / 100) vehCentre 0 = 1 / 200000"
    by (simp add: tickDeltaFwd_def vehCentre_def)
  have dd: "tickDeltaDofs \<lparr>cenLen = TrackLenModCurve, dAngle = pi / 2\<rparr> vehCentre (1 / 200000)
              = InfVal"
    by (simp add: tickDeltaDofs_def CurveRadius_left CurTrackPose_def vehCentre_def)
  obtain hv ad dc where tc: "tickCofs (1 / 100) (tickClampCofs microloop vehCentre) = (hv, ad, dc)"
    by (cases "tickCofs (1 / 100) (tickClampCofs microloop vehCentre)") auto
  have "IsFacingTrackwise (tickClampCofs microloop vehCentre\<lparr>desDspd := 0, desCofs := dc\<rparr>)
          = IsFacingTrackwise vehCentre"
    by (rule IsFacingTrackwise_curPose) (simp add: tickClampCofs_fields)
  also have "\<dots> = Inr True"
    by (simp add: IsFacingTrackwise_def vehCentre_def)
  finally have fw: "IsFacingTrackwise (tickClampCofs microloop vehCentre\<lparr>desDspd := 0, desCofs := dc\<rparr>)
                      = Inr True" .
  have "tickVehicle simDeltaT microloop vehCentre = None"
    unfolding tickVehicle_def CurTrackPose_def Let_def
    by (simp only: r microloop_Rp_1 sum.case prod.case option.case fval.case fdt s df dd tc fw
        microloop_CenLen)
  then have "Tick simDeltaT microloop [vehCentre] = None" by simp
  with microloop_CenLen rp rng da r microloop_Rp_1 c0 c1 show ?thesis by simp
qed

text \<open>
  Claim C10. When \<open>NewTrack\<close> is given the maximum centre offset 0 (with at least four
  pieces and a positive width, the other two checks on the arguments), the value 0 is
  not an error: the result is the one for the maximum centre offset \<open>width / 2\<close>, a
  track is returned, and the only error that can come with it is that the pieces do not
  close. \<open>MaxCofs\<close> of that track is \<open>width / 2\<close>, and every tick of the simulator on
  that track that returns leaves the commanded centre offset of the vehicle clamped to
  \<open>[- width / 2, width / 2]\<close>.
\<close>

theorem NewTrack_maxCofs_default:
  assumes "4 \<le> length ps" and "0 < w"
  shows "\<exists>t e. NewTrack w 0 ps = (Some t, e)
           \<and> NewTrack w (w / 2) ps = (Some t, e)
           \<and> (e = None \<or> (\<exists>b f. e = Some (NotALoop b f)))
           \<and> MaxCofs t = w / 2
           \<and> (\<forall>dt veh veh'. tickVehicle dt t veh = Some (Inr veh')
                 \<longrightarrow> cmdCofs veh' = (if cmdCofs veh < - (w / 2) then - (w / 2)
                                       else if cmdCofs veh > w / 2 then w / 2
                                       else cmdCofs veh))"
proof -
  obtain t e where te: "NewTrack w 0 ps = (Some t, e)"
    using NewTrack_returns_track [of ps w 0] assms by auto
  have same: "NewTrack w (w / 2) ps = NewTrack w 0 ps"
    using assms by (simp add: NewTrack_def Let_def)
  have er: "e = None \<or> (\<exists>b f. e = Some (NotALoop b f))"
    using te assms by (auto simp: NewTrack_def Let_def split: if_splits)
  have mc: "MaxCofs t = w / 2"
    using NewTrack_fields(4) [OF te] by (simp add: MaxCofs_def)
  have "\<forall>dt veh veh'. tickVehicle dt t veh = Some (Inr veh')
          \<longrightarrow> cmdCofs veh' = (if cmdCofs veh < - (w / 2) then - (w / 2)
                                else if cmdCofs veh > w / 2 then w / 2
                                else cmdCofs veh)"
    using tickVehicle_cmdCofs [of _ t] mc by simp
  with te same er mc show ?thesis by simp
qed

theorem NewTrack_maxCofs_default_witness:
  "4 \<le> length microPieces \<and> (0::real) < 3 / 10
   \<and> NewTrack (3 / 10) 0 microPieces = (Some microloop, None)
   \<and> NewTrack (3 / 10) ((3 / 10) / 2) microPieces = (Some microloop, None)
   \<and> MaxCofs microloop = (3 / 10) / 2
   \<and> cmdCofs vehWide = 1
   \<and> (\<exists>veh'. tickVehicle simDeltaT microloop vehWide = Some (Inr veh')
          \<and> cmdCofs veh' = (3 / 10) / 2)"
proof -
  have h1: "4 \<le> length microPieces" by (simp add: microPieces_def)
  have h2: "(0::real) < 3 / 10" by simp
  obtain t e where te: "NewTrack (3 / 10) 0 microPieces = (Some t, e)"
      "NewTrack (3 / 10) ((3 / 10) / 2) microPieces = (Some t, e)"
      "MaxCofs t = (3 / 10) / 2"
      "\<forall>dt veh veh'. tickVehicle dt t veh = Some (Inr veh')
          \<longrightarrow> cmdCofs veh' = (if cmdCofs veh < - ((3 / 10) / 2) then - ((3 / 10) / 2)
                                else if cmdCofs veh > (3 / 10) / 2 then (3 / 10) / 2
                                else cmdCofs veh)"
    using NewTrack_maxCofs_default [OF h1 h2] by blast
  have t: "t = microloop" and e: "e = None"
    using te(1) microloop_NewTrack by simp_all
  have r: "RpiAndRpDofs microloop (Dofs (curPose vehWide)) = Inr (0, 0)"
    by (simp add: vehWide_def microloop_RpiAndRpDofs_0)
  have c: "CurveRadius \<lparr>cenLen = 22 / 100, dAngle = 0\<rparr> 0 = 0
           \<or> CurveRadius \<lparr>cenLen = 22 / 100, dAngle = 0\<rparr> (Cofs (curPose vehWide)) \<noteq> 0"
    by (simp add: CurveRadius_def IsStraight_def)
  have da: "\<bar>DAngle (curPose vehWide)\<bar> \<le> pi" by (simp add: vehWide_def)
  obtain veh' where v: "tickVehicle simDeltaT microloop vehWide = Some (Inr veh')"
    using tickVehicle_result [OF r microloop_Rp_0 c da microloop_CenLen microLen_pos, of simDeltaT]
    by blast
  have w: "cmdCofs vehWide = 1" by (simp add: vehWide_def)
  have "cmdCofs veh' = (3 / 10) / 2"
    using te(4) v w unfolding t by auto
  with v te(1,2,3) h1 h2 w show ?thesis unfolding t e by blast
qed

section \<open>Errors of the constructors\<close>

lemma NewRoadPiece_modular:
  "NewRoadPiece TrackLenModStartShort 0 = Inr \<lparr>cenLen = TrackLenModStartShort, dAngle = 0\<rparr>"
  "NewRoadPiece TrackLenModStartLong 0 = Inr \<lparr>cenLen = TrackLenModStartLong, dAngle = 0\<rparr>"
  "NewRoadPiece TrackLenModStraight 0 = Inr \<lparr>cenLen = TrackLenModStraight, dAngle = 0\<rparr>"
  "NewRoadPiece TrackLenModCurve Radians90DegreeTurnL
     = Inr \<lparr>cenLen = TrackLenModCurve, dAngle = Radians90DegreeTurnL\<rparr>"
  "NewRoadPiece TrackLenModCurve Radians90DegreeTurnR
     = Inr \<lparr>cenLen = TrackLenModCurve, dAngle = Radians90DegreeTurnR\<rparr>"
proof -
  have pos: "\<not> pi \<le> 0" using pi_gt_zero by linarith
  show "NewRoadPiece TrackLenModStartShort 0 = Inr \<lparr>cenLen = TrackLenModStartShort, dAngle = 0\<rparr>"
    by (simp add: NewRoadPiece_def TrackLenModStartShort_def Radians90DegreeTurnL_def
        Radians90DegreeTurnR_def)
  show "NewRoadPiece TrackLenModStartLong 0 = Inr \<lparr>cenLen = TrackLenModStartLong, dAngle = 0\<rparr>"
    by (simp add: NewRoadPiece_def TrackLenModStartLong_def Radians90DegreeTurnL_def
        Radians90DegreeTurnR_def)
  show "NewRoadPiece TrackLenModStraight 0 = Inr \<lparr>cenLen = TrackLenModStraight, dAngle = 0\<rparr>"
    by (simp add: NewRoadPiece_def TrackLenModStraight_def Radians90DegreeTurnL_def
        Radians90DegreeTurnR_def)
  show "NewRoadPiece TrackLenModCurve Radians90DegreeTurnL
     = Inr \<lparr>cenLen = TrackLenModCurve, dAngle = Radians90DegreeTurnL\<rparr>"
    using pos by (simp add: NewRoadPiece_def TrackLenModCurve_def TrackLenModStraight_def
        Radians90DegreeTurnL_def Radians90DegreeTurnR_def)
  show "NewRoadPiece TrackLenModCurve Radians90DegreeTurnR
     = Inr \<lparr>cenLen = TrackLenModCurve, dAngle = Radians90DegreeTurnR\<rparr>"
    using pos by (simp add: NewRoadPiece_def TrackLenModCurve_def TrackLenModStraight_def
        Radians90DegreeTurnL_def Radians90DegreeTurnR_def)
qed

lemma modularPieces_no_panic: "\<exists>r. modularPieces s = Inr r"
proof (induction s)
  case Nil
  show ?case by simp
next
  case (Cons tc tcs)
  then obtain r where "modularPieces tcs = Inr r" by blast
  then show ?case
    by (cases r) (simp_all add: NewRoadPiece_modular)
qed

lemma modularPieces_bad_char:
  "\<exists>c \<in> set s. c \<noteq> CHR ''S'' \<and> c \<noteq> CHR ''L'' \<and> c \<noteq> CHR ''R''
     \<Longrightarrow> modularPieces s = Inr (Inl UnsupportedTopoChar)"
proof (induction s)
  case Nil
  then show ?case by simp
next
  case (Cons tc tcs)
  show ?case
  proof (cases "tc \<noteq> CHR ''S'' \<and> tc \<noteq> CHR ''L'' \<and> tc \<noteq> CHR ''R''")
    case True
    then show ?thesis by simp
  next
    case False
    then have "\<exists>c \<in> set tcs. c \<noteq> CHR ''S'' \<and> c \<noteq> CHR ''L'' \<and> c \<noteq> CHR ''R''"
      using Cons.prems by auto
    then have "modularPieces tcs = Inr (Inl UnsupportedTopoChar)" by (rule Cons.IH)
    then show ?thesis using False by (auto simp: NewRoadPiece_modular)
  qed
qed

text \<open>
  Claim C8, as stated, fails for the vehicle type: \<open>NewVehicle\<close> has no error result,
  and for a type that is not in the table it panics.
\<close>

theorem NewVehicle_unknown_type_panics:
  "map_of vehTypeInfoTable ''zz'' = None \<and> NewVehicle ''zz'' microLen = Inl InvalidVehType"
  by (simp add: NewVehicle_def vehTypeInfoTable_def)

text \<open>
  Claim C8, amended. The validation errors of the track constructors are returned as
  error values: \<open>NewTrack\<close> returns an error for fewer than four pieces, for a width
  that is not positive, for a negative maximum centre offset, and (together with the
  track) for pieces that do not close to a loop; \<open>NewModularTrack\<close>, on a topology
  string that is not empty, never panics, and returns an error when the first character
  is not \<open>S\<close> or a later character is none of \<open>S\<close>, \<open>L\<close>, \<open>R\<close>. The
  vehicle type is different: \<open>NewVehicle\<close> with a type that is not in the table
  panics.
\<close>

theorem construction_errors:
  "(length ps < 4 \<longrightarrow> NewTrack w mc ps = (None, Some (TrackTooSmall (length ps))))
   \<and> (4 \<le> length ps \<and> w \<le> 0 \<longrightarrow> NewTrack w mc ps = (None, Some (InvalidWidth w)))
   \<and> (4 \<le> length ps \<and> 0 < w \<and> mc < 0
        \<longrightarrow> NewTrack w mc ps = (None, Some (InvalidMaxCofs mc)))
   \<and> (4 \<le> length ps \<and> 0 < w \<and> 0 \<le> mc
        \<and> \<not> (RadiansAreNear (Theta (entryPosesFrom \<lparr>X = 0, Y = 0, Theta = 0\<rparr> ps ! 0))
                  (Theta (entryPosesFrom \<lparr>X = 0, Y = 0, Theta = 0\<rparr> ps ! length ps))
                  TrackRadiansAreEqualTol
                \<and> MetersAreNear (X (entryPosesFrom \<lparr>X = 0, Y = 0, Theta = 0\<rparr> ps ! 0))
                  (X (entryPosesFrom \<lparr>X = 0, Y = 0, Theta = 0\<rparr> ps ! length ps))
                  TrackMetersAreEqualTol
                \<and> MetersAreNear (Y (entryPosesFrom \<lparr>X = 0, Y = 0, Theta = 0\<rparr> ps ! 0))
                  (Y (entryPosesFrom \<lparr>X = 0, Y = 0, Theta = 0\<rparr> ps ! length ps))
                  TrackMetersAreEqualTol)
        \<longrightarrow> (\<exists>t. NewTrack w mc ps
                    = (Some t, Some (NotALoop
                         (entryPosesFrom \<lparr>X = 0, Y = 0, Theta = 0\<rparr> ps ! 0)
                         (entryPosesFrom \<lparr>X = 0, Y = 0, Theta = 0\<rparr> ps ! length ps)))))
   \<and> (\<exists>r. NewModularTrack w mc (c0 # rest) = Inr r)
   \<and> (c0 \<noteq> CHR ''S''
        \<longrightarrow> NewModularTrack w mc (c0 # rest) = Inr (None, Some TopoMustStartWithS))
   \<and> (c0 = CHR ''S''
        \<and> (\<exists>c \<in> set rest. c \<noteq> CHR ''S'' \<and> c \<noteq> CHR ''L'' \<and> c \<noteq> CHR ''R'')
        \<longrightarrow> NewModularTrack w mc (c0 # rest) = Inr (None, Some UnsupportedTopoChar))
   \<and> (map_of vehTypeInfoTable vt = None \<longrightarrow> NewVehicle vt tlen = Inl InvalidVehType)"
proof -
  have a: "length ps < 4 \<longrightarrow> NewTrack w mc ps = (None, Some (TrackTooSmall (length ps)))"
    by (simp add: NewTrack_def Let_def)
  have b: "4 \<le> length ps \<and> w \<le> 0 \<longrightarrow> NewTrack w mc ps = (None, Some (InvalidWidth w))"
    by (simp add: NewTrack_def Let_def)
  have c: "4 \<le> length ps \<and> 0 < w \<and> mc < 0
        \<longrightarrow> NewTrack w mc ps = (None, Some (InvalidMaxCofs mc))"
    by (simp add: NewTrack_def Let_def)
  have d: "4 \<le> length ps \<and> 0 < w \<and> 0 \<le> mc
        \<and> \<not> (RadiansAreNear (Theta (entryPosesFrom \<lparr>X = 0, Y = 0, Theta = 0\<rparr> ps ! 0))
                  (Theta (entryPosesFrom \<lparr>X = 0, Y = 0, Theta = 0\<rparr> ps ! length ps))
                  TrackRadiansAreEqualTol
                \<and> MetersAreNear (X (entryPosesFrom \<lparr>X = 0, Y = 0, Theta = 0\<rparr> ps ! 0))
                  (X (entryPosesFrom \<lparr>X = 0, Y = 0, Theta = 0\<rparr> ps ! length ps))
                  TrackMetersAreEqualTol
                \<and> MetersAreNear (Y (entryPosesFrom \<lparr>X = 0, Y = 0, Theta = 0\<rparr> ps ! 0))
                  (Y (entryPosesFrom \<lparr>X = 0, Y = 0, Theta = 0\<rparr> ps ! length ps))
                  TrackMetersAreEqualTol)
        \<longrightarrow> (\<exists>t. NewTrack w mc ps
                    = (Some t, Some (NotALoop
                         (entryPosesFrom \<lparr>X = 0, Y = 0, Theta = 0\<rparr> ps ! 0)
                         (entryPosesFrom \<lparr>X = 0, Y = 0, Theta = 0\<rparr> ps ! length ps))))"
    by (auto simp: NewTrack_def Let_def)
  obtain r where r: "modularPieces rest = Inr r"
    using modularPieces_no_panic by blast
  have e: "\<exists>r. NewModularTrack w mc (c0 # rest) = Inr r"
    using r by (cases r) (simp_all add: NewModularTrack_def NewRoadPiece_modular bindF_def)
  have f: "c0 \<noteq> CHR ''S''
        \<longrightarrow> NewModularTrack w mc (c0 # rest) = Inr (None, Some TopoMustStartWithS)"
    by (simp add: NewModularTrack_def)
  have g: "c0 = CHR ''S''
        \<and> (\<exists>c \<in> set rest. c \<noteq> CHR ''S'' \<and> c \<noteq> CHR ''L'' \<and> c \<noteq> CHR ''R'')
        \<longrightarrow> NewModularTrack w mc (c0 # rest) = Inr (None, Some UnsupportedTopoChar)"
    using modularPieces_bad_char [of rest]
    by (auto simp: NewModularTrack_def NewRoadPiece_modular bindF_def)
  have h: "map_of vehTypeInfoTable vt = None \<longrightarrow> NewVehicle vt tlen = Inl InvalidVehType"
    by (simp add: NewVehicle_def)
  from a b c d e f g h show ?thesis by blast
qed

lemma straight4_entryPoses:
  "entryPosesFrom \<lparr>X = 0, Y = 0, Theta = 0\<rparr> straight4 =
     [\<lparr>X = 0, Y = 0, Theta = 0\<rparr>, \<lparr>X = 1, Y = 0, Theta = 0\<rparr>, \<lparr>X = 2, Y = 0, Theta = 0\<rparr>,
      \<lparr>X = 3, Y = 0, Theta = 0\<rparr>, \<lparr>X = 4, Y = 0, Theta = 0\<rparr>]"
  by (simp add: straight4_def numeral_eq_Suc DeltaPose_straight AdvancePose_eq)

theorem construction_errors_witness:
  "length ([] :: RoadPiece list) < 4
   \<and> NewTrack (3 / 10) 0 [] = (None, Some (TrackTooSmall 0))
   \<and> 4 \<le> length microPieces
   \<and> NewTrack 0 0 microPieces = (None, Some (InvalidWidth 0))
   \<and> NewTrack (3 / 10) (- 1) microPieces = (None, Some (InvalidMaxCofs (- 1)))
   \<and> 4 \<le> length straight4
   \<and> \<not> MetersAreNear 0 4 TrackMetersAreEqualTol
   \<and> (\<exists>t. NewTrack (1 / 5) (1 / 10) straight4
             = (Some t, Some (NotALoop \<lparr>X = 0, Y = 0, Theta = 0\<rparr> \<lparr>X = 4, Y = 0, Theta = 0\<rparr>)))
   \<and> (\<exists>r. NewModularTrack (3 / 10) 0 ''SLLSLL'' = Inr r)
   \<and> NewModularTrack (3 / 10) 0 ''LS'' = Inr (None, Some TopoMustStartWithS)
   \<and> NewModularTrack (3 / 10) 0 ''SXL'' = Inr (None, Some UnsupportedTopoChar)
   \<and> map_of vehTypeInfoTable ''zz'' = None
   \<and> NewVehicle ''zz'' microLen = Inl InvalidVehType"
proof -
  have n: "4 \<le> length microPieces" "4 \<le> length straight4"
    by (simp_all add: microPieces_def straight4_def)
  have far: "\<not> MetersAreNear 0 4 TrackMetersAreEqualTol"
    by (simp add: MetersAreNear_def isNear_def TrackMetersAreEqualTol_def)
  have z: "map_of vehTypeInfoTable ''zz'' = None"
    by (simp add: vehTypeInfoTable_def)
  have i1: "NewTrack (3 / 10) 0 [] = (None, Some (TrackTooSmall 0))"
    using construction_errors [of "[]" "3 / 10" 0 "CHR ''L''" "''S''" "''zz''" microLen]
    by simp
  have i2: "NewTrack 0 0 microPieces = (None, Some (InvalidWidth 0))"
    using construction_errors [of microPieces 0 0 "CHR ''S''" "''XL''" "''zz''" microLen] n
    by simp
  have i3: "NewTrack (3 / 10) (- 1) microPieces = (None, Some (InvalidMaxCofs (- 1)))"
    using construction_errors [of microPieces "3 / 10" "- 1" "CHR ''S''" "''XL''" "''zz''" microLen] n
    by simp
  have i4: "\<exists>t. NewTrack (1 / 5) (1 / 10) straight4
             = (Some t, Some (NotALoop \<lparr>X = 0, Y = 0, Theta = 0\<rparr> \<lparr>X = 4, Y = 0, Theta = 0\<rparr>))"
    using construction_errors [of straight4 "1 / 5" "1 / 10" "CHR ''S''" "''XL''" "''zz''" microLen]
      n far
    by (simp add: straight4_entryPoses) (simp add: straight4_def)
  have i5: "\<exists>r. NewModularTrack (3 / 10) 0 ''SLLSLL'' = Inr r"
    using construction_errors [of microPieces "3 / 10" 0 "CHR ''S''" "''LLSLL''" "''zz''" microLen]
    by blast
  have i6: "NewModularTrack (3 / 10) 0 ''LS'' = Inr (None, Some TopoMustStartWithS)"
    using construction_errors [of microPieces "3 / 10" 0 "CHR ''L''" "''S''" "''zz''" microLen]
    by simp
  have i7: "NewModularTrack (3 / 10) 0 ''SXL'' = Inr (None, Some UnsupportedTopoChar)"
    using construction_errors [of microPieces "3 / 10" 0 "CHR ''S''" "''XL''" "''zz''" microLen]
    by simp
  have i8: "NewVehicle ''zz'' microLen = Inl InvalidVehType"
    using construction_errors [of microPieces "3 / 10" 0 "CHR ''S''" "''XL''" "''zz''" microLen] z
    by blast
  from n far z i1 i2 i3 i4 i5 i6 i7 i8 show ?thesis by simp
qed

section \<open>The collision detector, pair by pair\<close>

lemma foldF_append:
  "foldF f (xs @ ys) s = (case foldF f xs s of Inl e \<Rightarrow> Inl e | Inr s' \<Rightarrow> foldF f ys s')"
  by (induction xs arbitrary: s) (auto split: sum.splits)

lemma upt_split: "a \<le> b \<Longrightarrow> b < c \<Longrightarrow> [a ..< c] = [a ..< b] @ b # [Suc b ..< c]"
  by (metis le_add_diff_inverse less_imp_le_nat upt_add_eq_append upt_conv_Cons)

lemma updatePair_at:
  assumes cl: "Track_CenLen trk = Inr l"
    and v: "v0 < length allInputs" "v1 < length allInputs"
  shows "\<exists>cd'. updatePair now trk allInputs v0 v1 cd = Inr cd'
           \<and> maxDimension cd' = maxDimension cd
           \<and> curCollisions cd' \<lparr>Veh1 = int v0, Veh2 = int v1\<rparr>
               = (if pairCollides trk (maxDimension cd) allInputs v0 v1
                  then (case curCollisions cd \<lparr>Veh1 = int v0, Veh2 = int v1\<rparr> of
                          None \<Rightarrow> Some (newCollisionEvent now v0 v1 (allInputs ! v0) (allInputs ! v1)
                                          (snd (calcPointOfImpact (allInputs ! v0, allInputs ! v1))))
                        | Some ev \<Rightarrow> Some ev)
                  else None)
           \<and> newCollisions cd' \<lparr>Veh1 = int v0, Veh2 = int v1\<rparr>
               = (if pairCollides trk (maxDimension cd) allInputs v0 v1
                     \<and> curCollisions cd \<lparr>Veh1 = int v0, Veh2 = int v1\<rparr> = None
                  then Some (newCollisionEvent now v0 v1 (allInputs ! v0) (allInputs ! v1)
                               (snd (calcPointOfImpact (allInputs ! v0, allInputs ! v1))))
                  else newCollisions cd \<lparr>Veh1 = int v0, Veh2 = int v1\<rparr>)
           \<and> (\<forall>q. q \<noteq> \<lparr>Veh1 = int v0, Veh2 = int v1\<rparr>
                 \<longrightarrow> curCollisions cd' q = curCollisions cd q
                     \<and> newCollisions cd' q = newCollisions cd q)"
  using cl v
  by (auto simp: updatePair_def pairCollides_def DofsDist_def bindF_def sliceAt_def Let_def
      split: prod.splits option.splits)

lemma inner_untouched:
  assumes cl: "Track_CenLen trk = Inr l"
    and v0: "v0 < length allInputs"
  shows "\<forall>v \<in> set vs. v < length allInputs \<and> \<lparr>Veh1 = int v0, Veh2 = int v\<rparr> \<noteq> k
     \<Longrightarrow> \<exists>cd'. foldF (\<lambda>v1. updatePair now trk allInputs v0 v1) vs cd = Inr cd'
           \<and> maxDimension cd' = maxDimension cd
           \<and> curCollisions cd' k = curCollisions cd k
           \<and> newCollisions cd' k = newCollisions cd k"
proof (induction vs arbitrary: cd)
  case Nil
  show ?case by simp
next
  case (Cons v vs)
  have v: "v < length allInputs" and ne: "k \<noteq> \<lparr>Veh1 = int v0, Veh2 = int v\<rparr>"
    using Cons.prems by auto
  obtain cd1 where c1: "updatePair now trk allInputs v0 v cd = Inr cd1"
      "maxDimension cd1 = maxDimension cd"
      "curCollisions cd1 k = curCollisions cd k" "newCollisions cd1 k = newCollisions cd k"
    using updatePair_at [OF cl v0 v, of now cd] ne by blast
  obtain cd' where c2: "foldF (\<lambda>v1. updatePair now trk allInputs v0 v1) vs cd1 = Inr cd'"
      "maxDimension cd' = maxDimension cd1"
      "curCollisions cd' k = curCollisions cd1 k" "newCollisions cd' k = newCollisions cd1 k"
    using Cons.IH [of cd1] Cons.prems by auto
  show ?case using c1 c2 by simp
qed

lemma outer_untouched:
  assumes cl: "Track_CenLen trk = Inr l"
  shows "\<forall>v \<in> set v0s. v < length allInputs \<and> int v \<noteq> Veh1 k
     \<Longrightarrow> \<exists>cd'. foldF (\<lambda>v0. foldF (\<lambda>v1. updatePair now trk allInputs v0 v1)
                                  [Suc v0 ..< length allInputs]) v0s cd = Inr cd'
           \<and> maxDimension cd' = maxDimension cd
           \<and> curCollisions cd' k = curCollisions cd k
           \<and> newCollisions cd' k = newCollisions cd k"
proof (induction v0s arbitrary: cd)
  case Nil
  show ?case by simp
next
  case (Cons v v0s)
  have v: "v < length allInputs" and ne: "int v \<noteq> Veh1 k"
    using Cons.prems by auto
  have "\<forall>u \<in> set [Suc v ..< length allInputs].
          u < length allInputs \<and> \<lparr>Veh1 = int v, Veh2 = int u\<rparr> \<noteq> k"
    using ne by auto
  from inner_untouched [OF cl v this, of now cd]
  obtain cd1 where c1: "foldF (\<lambda>v1. updatePair now trk allInputs v v1)
                          [Suc v ..< length allInputs] cd = Inr cd1"
      "maxDimension cd1 = maxDimension cd"
      "curCollisions cd1 k = curCollisions cd k" "newCollisions cd1 k = newCollisions cd k"
    by blast
  obtain cd' where c2: "foldF (\<lambda>v0. foldF (\<lambda>v1. updatePair now trk allInputs v0 v1)
                                  [Suc v0 ..< length allInputs]) v0s cd1 = Inr cd'"
      "maxDimension cd' = maxDimension cd1"
      "curCollisions cd' k = curCollisions cd1 k" "newCollisions cd' k = newCollisions cd1 k"
    using Cons.IH [of cd1] Cons.prems by auto
  show ?case using c1 c2 by simp
qed

lemma updateHelper_pair:
  assumes cl: "Track_CenLen trk = Inr l"
    and ij: "i < j" "j < length allInputs"
  shows "\<exists>cd'. updateHelper now trk allInputs cd = Inr cd'
           \<and> maxDimension cd' = maxDimension cd
           \<and> curCollisions cd' \<lparr>Veh1 = int i, Veh2 = int j\<rparr>
               = (if pairCollides trk (maxDimension cd) allInputs i j
                  then (case curCollisions cd \<lparr>Veh1 = int i, Veh2 = int j\<rparr> of
                          None \<Rightarrow> Some (newCollisionEvent now i j (allInputs ! i) (allInputs ! j)
                                          (snd (calcPointOfImpact (allInputs ! i, allInputs ! j))))
                        | Some ev \<Rightarrow> Some ev)
                  else None)
           \<and> newCollisions cd' \<lparr>Veh1 = int i, Veh2 = int j\<rparr>
               = (if pairCollides trk (maxDimension cd) allInputs i j
                     \<and> curCollisions cd \<lparr>Veh1 = int i, Veh2 = int j\<rparr> = None
                  then Some (newCollisionEvent now i j (allInputs ! i) (allInputs ! j)
                               (snd (calcPointOfImpact (allInputs ! i, allInputs ! j))))
                  else newCollisions cd \<lparr>Veh1 = int i, Veh2 = int j\<rparr>)"
proof -
  let ?n = "length allInputs"
  let ?k = "\<lparr>Veh1 = int i, Veh2 = int j\<rparr>"
  let ?inner = "\<lambda>v0. foldF (\<lambda>v1. updatePair now trk allInputs v0 v1) [Suc v0 ..< ?n]"
  have i: "i < ?n" using ij by simp
  have outer: "[0 ..< ?n] = [0 ..< i] @ i # [Suc i ..< ?n]"
    using upt_split [of 0 i ?n] i by simp
  have inner: "[Suc i ..< ?n] = [Suc i ..< j] @ j # [Suc j ..< ?n]"
    using upt_split [of "Suc i" j ?n] ij by simp
  \<comment> \<open>the vehicles before \<open>i\<close>\<close>
  have "\<forall>v \<in> set [0 ..< i]. v < ?n \<and> int v \<noteq> Veh1 ?k" using i by auto
  from outer_untouched [OF cl this, of now cd]
  obtain cd1 where c1: "foldF ?inner [0 ..< i] cd = Inr cd1"
      "maxDimension cd1 = maxDimension cd"
      "curCollisions cd1 ?k = curCollisions cd ?k" "newCollisions cd1 ?k = newCollisions cd ?k"
    by blast
  \<comment> \<open>vehicle \<open>i\<close> against the vehicles before \<open>j\<close>\<close>
  have "\<forall>v \<in> set [Suc i ..< j]. v < ?n \<and> \<lparr>Veh1 = int i, Veh2 = int v\<rparr> \<noteq> ?k"
    using ij by auto
  from inner_untouched [OF cl i this, of now cd1]
  obtain cd2 where c2: "foldF (\<lambda>v1. updatePair now trk allInputs i v1) [Suc i ..< j] cd1 = Inr cd2"
      "maxDimension cd2 = maxDimension cd1"
      "curCollisions cd2 ?k = curCollisions cd1 ?k" "newCollisions cd2 ?k = newCollisions cd1 ?k"
    by blast
  \<comment> \<open>the pair itself\<close>
  from updatePair_at [OF cl i ij(2), of now cd2]
  obtain cd3 where c3: "updatePair now trk allInputs i j cd2 = Inr cd3"
      "maxDimension cd3 = maxDimension cd2"
      "curCollisions cd3 ?k
               = (if pairCollides trk (maxDimension cd2) allInputs i j
                  then (case curCollisions cd2 ?k of
                          None \<Rightarrow> Some (newCollisionEvent now i j (allInputs ! i) (allInputs ! j)
                                          (snd (calcPointOfImpact (allInputs ! i, allInputs ! j))))
                        | Some ev \<Rightarrow> Some ev)
                  else None)"
      "newCollisions cd3 ?k
               = (if pairCollides trk (maxDimension cd2) allInputs i j
                     \<and> curCollisions cd2 ?k = None
                  then Some (newCollisionEvent now i j (allInputs ! i) (allInputs ! j)
                               (snd (calcPointOfImpact (allInputs ! i, allInputs ! j))))
                  else newCollisions cd2 ?k)"
    by blast
  \<comment> \<open>vehicle \<open>i\<close> against the vehicles after \<open>j\<close>\<close>
  have "\<forall>v \<in> set [Suc j ..< ?n]. v < ?n \<and> \<lparr>Veh1 = int i, Veh2 = int v\<rparr> \<noteq> ?k"
    by auto
  from inner_untouched [OF cl i this, of now cd3]
  obtain cd4 where c4: "foldF (\<lambda>v1. updatePair now trk allInputs i v1) [Suc j ..< ?n] cd3 = Inr cd4"
      "maxDimension cd4 = maxDimension cd3"
      "curCollisions cd4 ?k = curCollisions cd3 ?k" "newCollisions cd4 ?k = newCollisions cd3 ?k"
    by blast
  have in_i: "?inner i cd1 = Inr cd4"
    by (simp add: inner foldF_append c2(1) c3(1) c4(1))
  \<comment> \<open>the vehicles after \<open>i\<close>\<close>
  have "\<forall>v \<in> set [Suc i ..< ?n]. v < ?n \<and> int v \<noteq> Veh1 ?k" by auto
  from outer_untouched [OF cl this, of now cd4]
  obtain cd5 where c5: "foldF ?inner [Suc i ..< ?n] cd4 = Inr cd5"
      "maxDimension cd5 = maxDimension cd4"
      "curCollisions cd5 ?k = curCollisions cd4 ?k" "newCollisions cd5 ?k = newCollisions cd4 ?k"
    by blast
  have "updateHelper now trk allInputs cd = foldF ?inner [0 ..< ?n] cd"
    by (simp add: updateHelper_def)
  also have "\<dots> = Inr cd5"
    unfolding outer by (simp add: foldF_append c1(1) in_i c5(1))
  finally have "updateHelper now trk allInputs cd = Inr cd5" .
  then show ?thesis
    using c1(2-) c2(2-) c3(2-) c4(2-) c5(2-) by simp
qed

lemma maxDimension_inner:
  "foldl (\<lambda>m v2. m(\<lparr>Veh1 = int v1, Veh2 = int v2\<rparr> \<mapsto> g v1 v2)) m vs \<lparr>Veh1 = int a, Veh2 = int b\<rparr>
     = (if a = v1 \<and> b \<in> set vs then Some (g v1 b) else m \<lparr>Veh1 = int a, Veh2 = int b\<rparr>)"
  by (induction vs arbitrary: m) auto

lemma maxDimension_outer:
  "foldl (\<lambda>m v1. foldl (\<lambda>m v2. m(\<lparr>Veh1 = int v1, Veh2 = int v2\<rparr> \<mapsto> g v1 v2)) m (h v1)) m v1s
     \<lparr>Veh1 = int a, Veh2 = int b\<rparr>
     = (if a \<in> set v1s \<and> b \<in> set (h a) then Some (g a b) else m \<lparr>Veh1 = int a, Veh2 = int b\<rparr>)"
  by (induction v1s arbitrary: m) (auto simp: maxDimension_inner)

lemma maxDimension_NewCollisionDetector:
  assumes "i < j" and "j < length vehs"
  shows "maxDimension (NewCollisionDetector trk vehs) \<lparr>Veh1 = int i, Veh2 = int j\<rparr>
           = Some (max (max (Vehicle_Length (vehs ! i)) (Vehicle_Length (vehs ! j)))
                       (max (Vehicle_Width (vehs ! i)) (Vehicle_Width (vehs ! j))))"
  using assms
  by (simp add: NewCollisionDetector_def Let_def
      maxDimension_outer [where g = "\<lambda>v1 v2. max (max (Vehicle_Length (vehs ! v1)) (Vehicle_Length (vehs ! v2)))
                       (max (Vehicle_Width (vehs ! v1)) (Vehicle_Width (vehs ! v2)))"
          and h = "\<lambda>v1. [Suc v1 ..< length vehs]"])

lemma Vehicle_dims_gs:
  "vtype v = ''gs'' \<Longrightarrow> Vehicle_Length v = 8 / 100 \<and> Vehicle_Width v = 44 / 1000"
  by (simp add: Vehicle_Length_def Vehicle_Width_def vehTypeInfoTable_def)

lemma cdTwo_maxDimension: "maxDimension cdTwo \<lparr>Veh1 = 0, Veh2 = 1\<rparr> = Some (8 / 100)"
proof -
  have "maxDimension (NewCollisionDetector microloop [vehRest, vehLane])
          \<lparr>Veh1 = int 0, Veh2 = int 1\<rparr>
        = Some (max (max (Vehicle_Length ([vehRest, vehLane] ! 0))
                         (Vehicle_Length ([vehRest, vehLane] ! 1)))
                    (max (Vehicle_Width ([vehRest, vehLane] ! 0))
                         (Vehicle_Width ([vehRest, vehLane] ! 1))))"
    by (rule maxDimension_NewCollisionDetector) simp_all
  moreover have "vtype vehRest = ''gs''" "vtype vehLane = ''gs''"
    by (simp_all add: vehRest_def vehLane_def)
  ultimately show ?thesis
    by (simp add: cdTwo_def Vehicle_dims_gs)
qed

lemma cdTwo_empty: "curCollisions cdTwo = Map.empty" "newCollisions cdTwo = Map.empty"
  by (simp_all add: cdTwo_def NewCollisionDetector_def Let_def)

lemma microLen_half: "1 < microLen / 2"
proof -
  have "microLen / 2 = 14 / 25 + 7 * pi / 25" by (simp add: microLen_def)
  then show ?thesis using pi_ge_two by linarith
qed

lemma microloop_DofsDist:
  "0 \<le> a \<Longrightarrow> a \<le> 1 \<Longrightarrow> DofsDist microloop 0 a = Inr a"
  using microLen_half by (simp add: DofsDist_def microloop_CenLen bindF_def)

text \<open>
  The corners of \<open>inBeside\<close> relative to \<open>inHome\<close> and the corners of \<open>inHome\<close>
  relative to \<open>inBeside\<close>, to be compared with the half length 0.04 and the half
  width 0.022: every coordinate is at least 0.01 away from the bound it is tested
  against. One corner of each rectangle is inside the other.
\<close>

lemma corners_beside_relative:
  "map (\<lambda>cp. Point.truncate (RelativeTo \<lparr>X = X cp, Y = Y cp, Theta = 0\<rparr> (pose inHome)))
       (cornersAbs inBeside)
     = [\<lparr>X = 9 / 100, Y = 4 / 125\<rparr>, \<lparr>X = 9 / 100, Y = - 3 / 250\<rparr>,
        \<lparr>X = 1 / 100, Y = 4 / 125\<rparr>, \<lparr>X = 1 / 100, Y = - 3 / 250\<rparr>]"
  "map (\<lambda>cp. Point.truncate (RelativeTo \<lparr>X = X cp, Y = Y cp, Theta = 0\<rparr> (pose inBeside)))
       (cornersAbs inHome)
     = [\<lparr>X = - 1 / 100, Y = 3 / 250\<rparr>, \<lparr>X = - 1 / 100, Y = - 4 / 125\<rparr>,
        \<lparr>X = - 9 / 100, Y = 3 / 250\<rparr>, \<lparr>X = - 9 / 100, Y = - 4 / 125\<rparr>]"
  by (simp_all add: cornersAbs_def inHome_def inBeside_def
      AdvancePose_eq RelativeTo_eq Point.truncate_def Let_def)

lemma cornersInside_beside:
  "cornersInside inHome inBeside = [\<lparr>X = 1 / 100, Y = - 3 / 250\<rparr>]"
  "cornersInside inBeside inHome = [\<lparr>X = 1 / 25, Y = 11 / 500\<rparr>]"
  by (simp_all add: cornersInside_def cornersAbs_def inHome_def inBeside_def
      AdvancePose_eq RelativeTo_eq Point.truncate_def Let_def)

lemma calc_beside: "fst (calcPointOfImpact (inHome, inBeside))"
  by (simp add: calcPointOfImpact_def cornersInside_def cornersAbs_def inHome_def inBeside_def
      AdvancePose_eq RelativeTo_eq Point.truncate_def Let_def)

lemma calc_over: "fst (calcPointOfImpact (inHome, inOver))"
  by (simp add: calcPointOfImpact_def cornersInside_def cornersAbs_def inHome_def inOver_def
      AdvancePose_eq RelativeTo_eq Point.truncate_def Let_def)

lemma pairCollides_beside: "pairCollides microloop (maxDimension cdTwo) [inHome, inBeside] 0 1"
  using calc_beside
  by (simp add: pairCollides_def cdTwo_maxDimension inHome_def inBeside_def microloop_DofsDist)

lemma pairCollides_ahead: "\<not> pairCollides microloop (maxDimension cdTwo) [inHome, inAhead] 0 1"
  by (simp add: pairCollides_def cdTwo_maxDimension inHome_def inAhead_def microloop_DofsDist)

section \<open>Pruning by the distance along the track\<close>

lemma DofsDist_CenLen: "DofsDist trk a b = Inr dd \<Longrightarrow> \<exists>l. Track_CenLen trk = Inr l"
  by (cases "Track_CenLen trk") (simp_all add: DofsDist_def bindF_def)

text \<open>
  Claim C5. Let the table of maximum dimensions be the one that
  \<open>NewCollisionDetector\<close> computes for the vehicles, and let the distance along the
  track of the pair \<open>(i, j)\<close>, as \<open>DofsDist\<close> gives it, be greater than the maximum of
  the lengths and widths of the two vehicles. Then \<open>updateHelper\<close> returns, the pair has
  no current collision afterwards, and no new collision event is recorded for it,
  whatever the Cartesian poses of the two vehicles are.
\<close>

theorem collision_pruning:
  assumes ij: "i < j" "j < length vehs"
    and n: "length allInputs = length vehs"
    and md: "maxDimension cd = maxDimension (NewCollisionDetector trk vehs)"
    and dd: "DofsDist trk (dofs (allInputs ! i)) (dofs (allInputs ! j)) = Inr dd"
    and far: "dd > max (max (Vehicle_Length (vehs ! i)) (Vehicle_Length (vehs ! j)))
                       (max (Vehicle_Width (vehs ! i)) (Vehicle_Width (vehs ! j)))"
  shows "\<exists>cd'. updateHelper now trk allInputs cd = Inr cd'
           \<and> curCollisions cd' \<lparr>Veh1 = int i, Veh2 = int j\<rparr> = None
           \<and> newCollisions cd' \<lparr>Veh1 = int i, Veh2 = int j\<rparr>
               = newCollisions cd \<lparr>Veh1 = int i, Veh2 = int j\<rparr>
           \<and> maxDimension cd' = maxDimension cd"
proof -
  obtain l where cl: "Track_CenLen trk = Inr l"
    using DofsDist_CenLen [OF dd] by blast
  have m: "maxDimension cd \<lparr>Veh1 = int i, Veh2 = int j\<rparr>
             = Some (max (max (Vehicle_Length (vehs ! i)) (Vehicle_Length (vehs ! j)))
                         (max (Vehicle_Width (vehs ! i)) (Vehicle_Width (vehs ! j))))"
    unfolding md using ij by (rule maxDimension_NewCollisionDetector)
  have npc: "\<not> pairCollides trk (maxDimension cd) allInputs i j"
    using far by (simp add: pairCollides_def dd m)
  have j: "j < length allInputs" using ij n by simp
  from updateHelper_pair [OF cl ij(1) j, of now cd] npc
  show ?thesis by auto
qed

theorem collision_pruning_witness:
  "(0::nat) < 1 \<and> 1 < length [vehRest, vehLane]
   \<and> length [inHome, inOver] = length [vehRest, vehLane]
   \<and> maxDimension cdTwo = maxDimension (NewCollisionDetector microloop [vehRest, vehLane])
   \<and> DofsDist microloop (dofs ([inHome, inOver] ! 0)) (dofs ([inHome, inOver] ! 1)) = Inr 1
   \<and> 1 > max (max (Vehicle_Length ([vehRest, vehLane] ! 0)) (Vehicle_Length ([vehRest, vehLane] ! 1)))
              (max (Vehicle_Width ([vehRest, vehLane] ! 0)) (Vehicle_Width ([vehRest, vehLane] ! 1)))
   \<and> fst (calcPointOfImpact (inHome, inOver))
   \<and> (\<exists>cd'. updateHelper simDeltaT microloop [inHome, inOver] cdTwo = Inr cd'
          \<and> curCollisions cd' \<lparr>Veh1 = 0, Veh2 = 1\<rparr> = None
          \<and> newCollisions cd' \<lparr>Veh1 = 0, Veh2 = 1\<rparr> = None)"
proof -
  have h1: "(0::nat) < 1" "1 < length [vehRest, vehLane]"
    "length [inHome, inOver] = length [vehRest, vehLane]" by simp_all
  have h2: "maxDimension cdTwo = maxDimension (NewCollisionDetector microloop [vehRest, vehLane])"
    by (simp add: cdTwo_def)
  have h3: "DofsDist microloop (dofs ([inHome, inOver] ! 0)) (dofs ([inHome, inOver] ! 1)) = Inr 1"
    by (simp add: inHome_def inOver_def microloop_DofsDist)
  have gs: "vtype vehRest = ''gs''" "vtype vehLane = ''gs''"
    by (simp_all add: vehRest_def vehLane_def)
  have h4: "1 > max (max (Vehicle_Length ([vehRest, vehLane] ! 0)) (Vehicle_Length ([vehRest, vehLane] ! 1)))
              (max (Vehicle_Width ([vehRest, vehLane] ! 0)) (Vehicle_Width ([vehRest, vehLane] ! 1)))"
    by (simp add: Vehicle_dims_gs gs)
  from collision_pruning [OF h1 h2 h3 h4, of simDeltaT]
  have "\<exists>cd'. updateHelper simDeltaT microloop [inHome, inOver] cdTwo = Inr cd'
          \<and> curCollisions cd' \<lparr>Veh1 = 0, Veh2 = 1\<rparr> = None
          \<and> newCollisions cd' \<lparr>Veh1 = 0, Veh2 = 1\<rparr> = None"
    by (auto simp: cdTwo_empty)
  with h1 h2 h3 h4 calc_over show ?thesis by blast
qed

section \<open>The identity of a collision event\<close>

lemma updateTicks_Cons:
  "updateTicks trk (tick # ticks) cd
     = (case updateHelper (fst tick) trk (snd tick) cd of
          Inl e \<Rightarrow> Inl e
        | Inr cd' \<Rightarrow> updateTicks trk ticks cd')"
  by (simp add: updateTicks_def split: sum.splits)

lemma updateTicks_colliding:
  assumes cl: "Track_CenLen trk = Inr l" and ij: "i < j"
  shows "curCollisions cd \<lparr>Veh1 = int i, Veh2 = int j\<rparr> = Some ev
     \<Longrightarrow> maxDimension cd = md
     \<Longrightarrow> \<forall>tick \<in> set ticks. j < length (snd tick) \<and> pairCollides trk md (snd tick) i j
     \<Longrightarrow> \<exists>cd'. updateTicks trk ticks cd = Inr cd' \<and> maxDimension cd' = md
           \<and> curCollisions cd' \<lparr>Veh1 = int i, Veh2 = int j\<rparr> = Some ev"
proof (induction ticks arbitrary: cd)
  case Nil
  then show ?case by (simp add: updateTicks_def)
next
  case (Cons tick ticks)
  have t: "j < length (snd tick)" "pairCollides trk (maxDimension cd) (snd tick) i j"
    using Cons.prems by simp_all
  from updateHelper_pair [OF cl ij t(1), of "fst tick" cd] t(2) Cons.prems(1)
  obtain cd1 where c1: "updateHelper (fst tick) trk (snd tick) cd = Inr cd1"
      "maxDimension cd1 = maxDimension cd"
      "curCollisions cd1 \<lparr>Veh1 = int i, Veh2 = int j\<rparr> = Some ev"
    by auto
  have "\<exists>cd'. updateTicks trk ticks cd1 = Inr cd' \<and> maxDimension cd' = md
           \<and> curCollisions cd' \<lparr>Veh1 = int i, Veh2 = int j\<rparr> = Some ev"
    using Cons.IH [OF c1(3)] c1(2) Cons.prems(2,3) by simp
  then show ?case by (simp add: updateTicks_Cons c1(1))
qed

lemma updateTicks_apart:
  assumes cl: "Track_CenLen trk = Inr l" and ij: "i < j"
  shows "curCollisions cd \<lparr>Veh1 = int i, Veh2 = int j\<rparr> = None
     \<Longrightarrow> maxDimension cd = md
     \<Longrightarrow> \<forall>tick \<in> set ticks. j < length (snd tick) \<and> \<not> pairCollides trk md (snd tick) i j
     \<Longrightarrow> \<exists>cd'. updateTicks trk ticks cd = Inr cd' \<and> maxDimension cd' = md
           \<and> curCollisions cd' \<lparr>Veh1 = int i, Veh2 = int j\<rparr> = None"
proof (induction ticks arbitrary: cd)
  case Nil
  then show ?case by (simp add: updateTicks_def)
next
  case (Cons tick ticks)
  have t: "j < length (snd tick)" "\<not> pairCollides trk (maxDimension cd) (snd tick) i j"
    using Cons.prems by simp_all
  from updateHelper_pair [OF cl ij t(1), of "fst tick" cd] t(2)
  obtain cd1 where c1: "updateHelper (fst tick) trk (snd tick) cd = Inr cd1"
      "maxDimension cd1 = maxDimension cd"
      "curCollisions cd1 \<lparr>Veh1 = int i, Veh2 = int j\<rparr> = None"
    by auto
  have "\<exists>cd'. updateTicks trk ticks cd1 = Inr cd' \<and> maxDimension cd' = md
           \<and> curCollisions cd' \<lparr>Veh1 = int i, Veh2 = int j\<rparr> = None"
    using Cons.IH [OF c1(3)] c1(2) Cons.prems(2,3) by simp
  then show ?case by (simp add: updateTicks_Cons c1(1))
qed

lemma updateHelper_fresh:
  assumes cl: "Track_CenLen trk = Inr l" and ij: "i < j" "j < length allInputs"
    and none: "curCollisions cd \<lparr>Veh1 = int i, Veh2 = int j\<rparr> = None"
    and pc: "pairCollides trk (maxDimension cd) allInputs i j"
  shows "\<exists>cd' ev. updateHelper now trk allInputs cd = Inr cd'
           \<and> maxDimension cd' = maxDimension cd
           \<and> curCollisions cd' \<lparr>Veh1 = int i, Veh2 = int j\<rparr> = Some ev
           \<and> newCollisions cd' \<lparr>Veh1 = int i, Veh2 = int j\<rparr> = Some ev
           \<and> ImpactTime ev = now
           \<and> VehId (fst (VehInfo ev)) = int i \<and> VehId (snd (VehInfo ev)) = int j"
proof -
  let ?ev = "newCollisionEvent now i j (allInputs ! i) (allInputs ! j)
               (snd (calcPointOfImpact (allInputs ! i, allInputs ! j)))"
  have e: "ImpactTime ?ev = now \<and> VehId (fst (VehInfo ?ev)) = int i
             \<and> VehId (snd (VehInfo ?ev)) = int j"
    by (simp add: newCollisionEvent_def Let_def)
  from updateHelper_pair [OF cl ij, of now cd] none pc
  obtain cd' where "updateHelper now trk allInputs cd = Inr cd'"
      "maxDimension cd' = maxDimension cd"
      "curCollisions cd' \<lparr>Veh1 = int i, Veh2 = int j\<rparr> = Some ?ev"
      "newCollisions cd' \<lparr>Veh1 = int i, Veh2 = int j\<rparr> = Some ?ev"
    by auto
  with e show ?thesis by blast
qed

text \<open>
  Claim C2. The pair \<open>(i, j)\<close> of tracked vehicles has no current collision. In a
  first tick at time \<open>now1\<close> the two vehicles overlap: \<open>updateHelper\<close> records an event
  with the impact time \<open>now1\<close>, as current and as new. Through any further ticks
  \<open>cont\<close> in which they overlap, the current event of the pair stays this same event,
  so its impact time stays \<open>now1\<close>. In the next tick they do not overlap: the pair has
  no current event any more, and it has none through any ticks \<open>gap\<close> in which they
  do not overlap. When they overlap again in a tick at time \<open>now2\<close>, the pair gets a
  new event with the impact time \<open>now2\<close>. Overlapping is the test of the detector,
  \<open>pairCollides\<close>.
\<close>

theorem collision_event_identity:
  assumes cl: "Track_CenLen trk = Inr l" and ij: "i < j"
    and none: "curCollisions cd \<lparr>Veh1 = int i, Veh2 = int j\<rparr> = None"
    and first: "j < length ins1" "pairCollides trk (maxDimension cd) ins1 i j"
    and cont: "\<forall>tick \<in> set cont. j < length (snd tick)
                 \<and> pairCollides trk (maxDimension cd) (snd tick) i j"
    and sep: "j < length insSep" "\<not> pairCollides trk (maxDimension cd) insSep i j"
    and gap: "\<forall>tick \<in> set gap. j < length (snd tick)
                 \<and> \<not> pairCollides trk (maxDimension cd) (snd tick) i j"
    and fresh: "j < length ins2" "pairCollides trk (maxDimension cd) ins2 i j"
  shows "\<exists>cd1 cd2 cd3 cd4 cd5 ev1 ev2.
           updateHelper now1 trk ins1 cd = Inr cd1
           \<and> curCollisions cd1 \<lparr>Veh1 = int i, Veh2 = int j\<rparr> = Some ev1
           \<and> newCollisions cd1 \<lparr>Veh1 = int i, Veh2 = int j\<rparr> = Some ev1
           \<and> ImpactTime ev1 = now1
           \<and> updateTicks trk cont cd1 = Inr cd2
           \<and> curCollisions cd2 \<lparr>Veh1 = int i, Veh2 = int j\<rparr> = Some ev1
           \<and> updateHelper nowSep trk insSep cd2 = Inr cd3
           \<and> curCollisions cd3 \<lparr>Veh1 = int i, Veh2 = int j\<rparr> = None
           \<and> updateTicks trk gap cd3 = Inr cd4
           \<and> curCollisions cd4 \<lparr>Veh1 = int i, Veh2 = int j\<rparr> = None
           \<and> updateHelper now2 trk ins2 cd4 = Inr cd5
           \<and> curCollisions cd5 \<lparr>Veh1 = int i, Veh2 = int j\<rparr> = Some ev2
           \<and> newCollisions cd5 \<lparr>Veh1 = int i, Veh2 = int j\<rparr> = Some ev2
           \<and> ImpactTime ev2 = now2"
proof -
  let ?k = "\<lparr>Veh1 = int i, Veh2 = int j\<rparr>"
  let ?md = "maxDimension cd"
  obtain cd1 ev1 where c1: "updateHelper now1 trk ins1 cd = Inr cd1" "maxDimension cd1 = ?md"
      "curCollisions cd1 ?k = Some ev1" "newCollisions cd1 ?k = Some ev1" "ImpactTime ev1 = now1"
    using updateHelper_fresh [OF cl ij first(1) none first(2), of now1] by blast
  obtain cd2 where c2: "updateTicks trk cont cd1 = Inr cd2" "maxDimension cd2 = ?md"
      "curCollisions cd2 ?k = Some ev1"
    using updateTicks_colliding [OF cl ij c1(3) c1(2) cont] by blast
  have s: "\<not> pairCollides trk (maxDimension cd2) insSep i j" using sep(2) c2(2) by simp
  from updateHelper_pair [OF cl ij sep(1), of nowSep cd2] s
  obtain cd3 where c3: "updateHelper nowSep trk insSep cd2 = Inr cd3"
      "maxDimension cd3 = maxDimension cd2" "curCollisions cd3 ?k = None"
    by auto
  have m3: "maxDimension cd3 = ?md" using c3(2) c2(2) by simp
  obtain cd4 where c4: "updateTicks trk gap cd3 = Inr cd4" "maxDimension cd4 = ?md"
      "curCollisions cd4 ?k = None"
    using updateTicks_apart [OF cl ij c3(3) m3 gap] by blast
  have f: "pairCollides trk (maxDimension cd4) ins2 i j" using fresh(2) c4(2) by simp
  obtain cd5 ev2 where c5: "updateHelper now2 trk ins2 cd4 = Inr cd5"
      "curCollisions cd5 ?k = Some ev2" "newCollisions cd5 ?k = Some ev2" "ImpactTime ev2 = now2"
    using updateHelper_fresh [OF cl ij fresh(1) c4(3) f, of now2] by blast
  from c1 c2 c3 c4 c5 show ?thesis by blast
qed

theorem collision_event_identity_witness:
  "Track_CenLen microloop = Inr microLen \<and> (0::nat) < 1
   \<and> curCollisions cdTwo \<lparr>Veh1 = int 0, Veh2 = int 1\<rparr> = None
   \<and> 1 < length [inHome, inBeside]
   \<and> pairCollides microloop (maxDimension cdTwo) [inHome, inBeside] 0 1
   \<and> cornersInside inHome inBeside = [\<lparr>X = 1 / 100, Y = - 3 / 250\<rparr>]
   \<and> cornersInside inBeside inHome = [\<lparr>X = 1 / 25, Y = 11 / 500\<rparr>]
   \<and> 1 < length [inHome, inAhead]
   \<and> \<not> pairCollides microloop (maxDimension cdTwo) [inHome, inAhead] 0 1
   \<and> (\<exists>cd1 cd2 cd3 cd4 cd5 ev1 ev2.
         updateHelper 10000000 microloop [inHome, inBeside] cdTwo = Inr cd1
         \<and> curCollisions cd1 \<lparr>Veh1 = 0, Veh2 = 1\<rparr> = Some ev1
         \<and> newCollisions cd1 \<lparr>Veh1 = 0, Veh2 = 1\<rparr> = Some ev1
         \<and> ImpactTime ev1 = 10000000
         \<and> updateTicks microloop
               [(20000000, [inHome, inBeside]), (30000000, [inHome, inBeside])] cd1 = Inr cd2
         \<and> curCollisions cd2 \<lparr>Veh1 = 0, Veh2 = 1\<rparr> = Some ev1
         \<and> updateHelper 40000000 microloop [inHome, inAhead] cd2 = Inr cd3
         \<and> curCollisions cd3 \<lparr>Veh1 = 0, Veh2 = 1\<rparr> = None
         \<and> updateTicks microloop [(50000000, [inHome, inAhead])] cd3 = Inr cd4
         \<and> curCollisions cd4 \<lparr>Veh1 = 0, Veh2 = 1\<rparr> = None
         \<and> updateHelper 60000000 microloop [inHome, inBeside] cd4 = Inr cd5
         \<and> curCollisions cd5 \<lparr>Veh1 = 0, Veh2 = 1\<rparr> = Some ev2
         \<and> newCollisions cd5 \<lparr>Veh1 = 0, Veh2 = 1\<rparr> = Some ev2
         \<and> ImpactTime ev2 = 60000000)"
proof -
  have h1: "(0::nat) < 1" by simp
  have h2: "curCollisions cdTwo \<lparr>Veh1 = int 0, Veh2 = int 1\<rparr> = None"
    by (simp add: cdTwo_empty)
  have h3: "1 < length [inHome, inBeside]" by simp
  have h4: "\<forall>tick \<in> set [(20000000 :: SimTime, [inHome, inBeside]), (30000000, [inHome, inBeside])].
              1 < length (snd tick)
              \<and> pairCollides microloop (maxDimension cdTwo) (snd tick) 0 1"
    using pairCollides_beside by simp
  have h5: "1 < length [inHome, inAhead]" by simp
  have h6: "\<forall>tick \<in> set [(50000000 :: SimTime, [inHome, inAhead])].
              1 < length (snd tick)
              \<and> \<not> pairCollides microloop (maxDimension cdTwo) (snd tick) 0 1"
    using pairCollides_ahead by simp
  from collision_event_identity [OF microloop_CenLen h1 h2 h3 pairCollides_beside h4
         h5 pairCollides_ahead h6 h3 pairCollides_beside,
         of 10000000 40000000 60000000]
  have "\<exists>cd1 cd2 cd3 cd4 cd5 ev1 ev2.
         updateHelper 10000000 microloop [inHome, inBeside] cdTwo = Inr cd1
         \<and> curCollisions cd1 \<lparr>Veh1 = 0, Veh2 = 1\<rparr> = Some ev1
         \<and> newCollisions cd1 \<lparr>Veh1 = 0, Veh2 = 1\<rparr> = Some ev1
         \<and> ImpactTime ev1 = 10000000
         \<and> updateTicks microloop
               [(20000000, [inHome, inBeside]), (30000000, [inHome, inBeside])] cd1 = Inr cd2
         \<and> curCollisions cd2 \<lparr>Veh1 = 0, Veh2 = 1\<rparr> = Some ev1
         \<and> updateHelper 40000000 microloop [inHome, inAhead] cd2 = Inr cd3
         \<and> curCollisions cd3 \<lparr>Veh1 = 0, Veh2 = 1\<rparr> = None
         \<and> updateTicks microloop [(50000000, [inHome, inAhead])] cd3 = Inr cd4
         \<and> curCollisions cd4 \<lparr>Veh1 = 0, Veh2 = 1\<rparr> = None
         \<and> updateHelper 60000000 microloop [inHome, inBeside] cd4 = Inr cd5
         \<and> curCollisions cd5 \<lparr>Veh1 = 0, Veh2 = 1\<rparr> = Some ev2
         \<and> newCollisions cd5 \<lparr>Veh1 = 0, Veh2 = 1\<rparr> = Some ev2
         \<and> ImpactTime ev2 = 60000000"
    by simp
  with microloop_CenLen h1 h2 h3 h5 pairCollides_beside pairCollides_ahead cornersInside_beside
  show ?thesis by blast
qed

end
